theory Spec2Isabelle
  imports Main "HOL-Library.Word"
begin

section \<open>Data model of the chat window (components/ChatWindow.tsx)\<close>

text \<open>
  The text of a message and the two input buffers are what the user types and what
  \<open>String.prototype.trim\<close> inspects: they are JavaScript strings, lists of UTF-16
  code units. Ids, emails, statuses and notification texts are only compared or passed
  on, and are lists of characters. The creation timestamp is an ISO string on
  the client, which never compares two of them; the only order on it is the one the
  store applies to its timestamp column, so \<open>created_at\<close> is a natural
  number (ticks since the epoch). The field \<open>id\<close> of the source is
  \<open>msg_id\<close> here, since \<open>id\<close> is the identity function of HOL.
\<close>

type_synonym js_string = "16 word list"

text \<open>
  The code units of a text of characters below 256, which are the code points of the
  same numbers.
\<close>

definition utf16 :: "string \<Rightarrow> js_string" where
  "utf16 s = map (\<lambda>c. of_nat (of_char c)) s"

record sender_info =
  email :: string

text \<open>The columns of one row of the \<open>messages\<close> table, as a change event carries them.\<close>

record msg_core =
  msg_id :: string
  content :: js_string
  created_at :: nat
  sender_id :: string
  conversation_id :: string

text \<open>
  \<open>interface Message\<close>. The optional \<open>isEditing\<close> is \<open>None\<close> while the
  property is absent; \<open>sender\<close> is \<open>None\<close> when the joined value was null or
  an empty array (\<open>msg.sender[0]\<close> is then undefined).
\<close>

record message = msg_core +
  sender :: "sender_info option"
  isEditing :: "bool option"

text \<open>What the embedded select \<open>sender:sender_id(email)\<close> may hold in a returned row.\<close>

datatype sender_field =
    Sender_null
  | Sender_object sender_info
  | Sender_array "sender_info list"

record raw_row = msg_core +
  sender_raw :: sender_field

datatype store_error = Store_error (message: string)

text \<open>The \<open>{ data, error, count }\<close> object a ranged select resolves to.\<close>

datatype select_response =
  Select_response (resp_data: "raw_row list option")
                  (resp_error: "store_error option")
                  (resp_count: "nat option")

text \<open>What a handler emits besides its state updates.\<close>

datatype store_call =
    Insert_message string string js_string
  | Update_message string string js_string
  | Delete_message string string

datatype effect =
    Toast_error string
  | Toast_success string
  | Scroll_to_bottom
  | Store_request store_call
  | Select_conversation string

text \<open>
  The \<open>useState\<close> cells of \<open>ChatWindow\<close>, and the log of the effects it has
  emitted so far (oldest first).
\<close>

record chat_window =
  messages :: "message list"
  newMessage :: js_string
  editMessage :: js_string
  loading :: bool
  page :: nat
  hasMore :: bool
  effects :: "effect list"

definition MESSAGES_PER_PAGE :: nat where
  "MESSAGES_PER_PAGE = 20"

text \<open>\<open>error.message || dflt\<close>: the empty string is falsy.\<close>

definition error_text :: "store_error \<Rightarrow> string \<Rightarrow> string" where
  "error_text e dflt = (if message e = [] then dflt else message e)"

text \<open>A message counts as being edited when \<open>message.isEditing\<close> is truthy.\<close>

definition editing :: "message \<Rightarrow> bool" where
  "editing m = (isEditing m = Some True)"

section \<open>Page loads\<close>

text \<open>\<open>Array.isArray(msg.sender) ? msg.sender[0] : msg.sender\<close>\<close>

fun normalize_sender :: "sender_field \<Rightarrow> sender_info option" where
  "normalize_sender Sender_null = None"
| "normalize_sender (Sender_object s) = Some s"
| "normalize_sender (Sender_array []) = None"
| "normalize_sender (Sender_array (s # rest)) = Some s"

text \<open>\<open>{ ...msg, sender: ... }\<close>: the row's columns, with no \<open>isEditing\<close> property.\<close>

definition to_message :: "raw_row \<Rightarrow> message" where
  "to_message msg =
     \<lparr> msg_id = msg_id msg, content = content msg, created_at = created_at msg,
       sender_id = sender_id msg, conversation_id = conversation_id msg,
       sender = normalize_sender (sender_raw msg), isEditing = None \<rparr>"

text \<open>\<open>(data?.reverse() || []).map(...)\<close>\<close>

definition page_messages :: "raw_row list option \<Rightarrow> message list" where
  "page_messages d = (case d of None \<Rightarrow> [] | Some rows \<Rightarrow> map to_message (rev rows))"

text \<open>
  \<open>loadMessages(pageNumber, append)\<close>, its flag named \<open>append_page\<close> since
  \<open>append\<close> is the list concatenation of HOL. The first argument is the store's ranged,
  ordered read for this conversation, taking \<open>from\<close> and \<open>to\<close>; the state
  argument is the state at the moment the response is handled, since every update is
  either a constant or a functional update of the then current list.
\<close>

definition loadMessages ::
  "(nat \<Rightarrow> nat \<Rightarrow> select_response) \<Rightarrow> nat \<Rightarrow> bool \<Rightarrow> chat_window \<Rightarrow> chat_window" where
  "loadMessages select_range pageNumber append_page st =
     (let from = pageNumber * MESSAGES_PER_PAGE;
          to = from + MESSAGES_PER_PAGE - 1;
          resp = select_range from to
      in case resp_error resp of
           Some err \<Rightarrow>
             st\<lparr>effects := effects st @ [Toast_error (error_text err ''Failed to load messages'')],
                loading := False\<rparr>
         | None \<Rightarrow>
             (let newMessages = page_messages (resp_data resp);
                  more = (case resp_count resp of
                            None \<Rightarrow> False
                          | Some c \<Rightarrow> from + length newMessages < c)
              in if append_page
                 then st\<lparr>messages := newMessages @ messages st,
                         hasMore := more, loading := False\<rparr>
                 else st\<lparr>messages := newMessages,
                         effects := effects st @ [Scroll_to_bottom],
                         hasMore := more, loading := False\<rparr>))"

text \<open>
  The synchronous part of the effect hook that runs when \<open>conversationId\<close>
  changes; it then starts \<open>loadMessages(0, false)\<close>.
\<close>

definition conversation_effect :: "chat_window \<Rightarrow> chat_window" where
  "conversation_effect st = st\<lparr>loading := True, page := 0, hasMore := True\<rparr>"

text \<open>
  \<open>handleScroll\<close>, with the scroll offset of the container (which exists whenever
  the handler runs): the state it sets at once, and the page whose load (with
  \<open>append\<close> true) it starts, if any.
\<close>

definition handleScroll :: "nat \<Rightarrow> chat_window \<Rightarrow> chat_window \<times> nat option" where
  "handleScroll scrollTop st =
     (if scrollTop = 0 \<and> hasMore st \<and> \<not> loading st
      then (let nextPage = page st + 1
            in (st\<lparr>loading := True, page := nextPage\<rparr>, Some nextPage))
      else (st, None))"

section \<open>Change events of the feed\<close>

text \<open>
  The INSERT handler; \<open>lookup\<close> is the \<open>data\<close> of the secondary query for the
  sender's email (\<open>None\<close> for null).
\<close>

definition insert_handler :: "msg_core \<Rightarrow> sender_info option \<Rightarrow> chat_window \<Rightarrow> chat_window" where
  "insert_handler newMsg lookup st =
     (case lookup of
        None \<Rightarrow> st
      | Some d \<Rightarrow>
          (let messageWithSender =
                 \<lparr> msg_id = msg_id newMsg, content = content newMsg,
                   created_at = created_at newMsg, sender_id = sender_id newMsg,
                   conversation_id = conversation_id newMsg,
                   sender = Some \<lparr> email = email d \<rparr>, isEditing = None \<rparr>
           in st\<lparr>messages := messages st @ [messageWithSender],
                 effects := effects st @ [Scroll_to_bottom]\<rparr>))"

text \<open>The UPDATE handler.\<close>

definition update_handler :: "msg_core \<Rightarrow> chat_window \<Rightarrow> chat_window" where
  "update_handler updatedMessage st =
     st\<lparr>messages :=
          map (\<lambda>msg. if msg_id msg = msg_id updatedMessage
                     then msg\<lparr>content := content updatedMessage, isEditing := Some False\<rparr>
                     else msg)
              (messages st)\<rparr>"

text \<open>The DELETE handler.\<close>

definition delete_handler :: "msg_core \<Rightarrow> chat_window \<Rightarrow> chat_window" where
  "delete_handler deletedMessage st =
     st\<lparr>messages := filter (\<lambda>msg. msg_id msg \<noteq> msg_id deletedMessage) (messages st)\<rparr>"

section \<open>Local edit state\<close>

definition startEditMessage :: "message \<Rightarrow> chat_window \<Rightarrow> chat_window" where
  "startEditMessage m st =
     st\<lparr>messages :=
          map (\<lambda>msg. if msg_id msg = msg_id m
                     then msg\<lparr>isEditing := Some True\<rparr>
                     else msg\<lparr>isEditing := Some False\<rparr>)
              (messages st),
        editMessage := content m\<rparr>"

definition cancelEditMessage :: "chat_window \<Rightarrow> chat_window" where
  "cancelEditMessage st =
     st\<lparr>messages := map (\<lambda>msg. msg\<lparr>isEditing := Some False\<rparr>) (messages st),
        editMessage := ''''\<rparr>"

section \<open>Mutation gateway\<close>

text \<open>
  \<open>String.prototype.trim\<close> strips, from both ends, the code units that are white
  space or line terminators: TAB, LF, VT, FF, CR, SP, NBSP, U+1680, U+2000 to U+200A,
  U+2028, U+2029, U+202F, U+205F, U+3000 and U+FEFF. All of them are single code units.
\<close>

definition is_space :: "16 word \<Rightarrow> bool" where
  "is_space c =
     (c \<in> {0x0009, 0x000A, 0x000B, 0x000C, 0x000D, 0x0020, 0x00A0, 0x1680,
            0x2028, 0x2029, 0x202F, 0x205F, 0x3000, 0xFEFF} \<or>
      (0x2000 \<le> c \<and> c \<le> 0x200A))"

definition trim :: "js_string \<Rightarrow> js_string" where
  "trim s = rev (dropWhile is_space (rev (dropWhile is_space s)))"

text \<open>
  The three gateway calls. In each, \<open>reply\<close> is the \<open>error\<close> of the object the
  store call resolves to; the request and the handling of its reply are taken together.
\<close>

definition sendMessage :: "store_error option \<Rightarrow> string \<Rightarrow> string \<Rightarrow> chat_window \<Rightarrow> chat_window" where
  "sendMessage reply conversationId userId st =
     (if trim (newMessage st) = [] then st
      else (let issued = effects st @
                   [Store_request (Insert_message conversationId userId (newMessage st))]
            in case reply of
                 Some err \<Rightarrow>
                   st\<lparr>effects := issued @ [Toast_error (error_text err ''Failed to send message'')]\<rparr>
               | None \<Rightarrow> st\<lparr>newMessage := [], effects := issued\<rparr>))"

definition saveEditMessage :: "store_error option \<Rightarrow> string \<Rightarrow> string \<Rightarrow> chat_window \<Rightarrow> chat_window" where
  "saveEditMessage reply userId messageId st =
     (if trim (editMessage st) = [] then st
      else (let issued = effects st @
                   [Store_request (Update_message messageId userId (editMessage st))]
            in case reply of
                 Some err \<Rightarrow>
                   st\<lparr>effects := issued @ [Toast_error (error_text err ''Failed to edit message'')]\<rparr>
               | None \<Rightarrow> st\<lparr>editMessage := [], effects := issued\<rparr>))"

definition deleteMessage :: "store_error option \<Rightarrow> string \<Rightarrow> string \<Rightarrow> chat_window \<Rightarrow> chat_window" where
  "deleteMessage reply userId messageId st =
     (let issued = effects st @ [Store_request (Delete_message messageId userId)]
      in case reply of
           Some err \<Rightarrow>
             st\<lparr>effects := issued @ [Toast_error (error_text err ''Failed to delete message'')]\<rparr>
         | None \<Rightarrow> st\<lparr>effects := issued @ [Toast_success ''Message deleted'']\<rparr>)"

text \<open>
  The Edit and Delete buttons of a message are rendered when the message is not being
  edited and \<open>message.sender_id === userId\<close>.
\<close>

definition shows_edit_delete :: "string \<Rightarrow> message \<Rightarrow> bool" where
  "shows_edit_delete userId m = (\<not> editing m \<and> sender_id m = userId)"

section \<open>The store, as far as the handlers use it\<close>

text \<open>
  Modelled from the spec: the store is an external service, of which the repository
  holds only the calls. Its operations follow the capability of section 6 (ranged
  ordered read with a total count, conditional write, identity lookup), with the
  filters, order and range the calls in the source pass. A \<open>fault\<close> is a failure of
  the call itself (store unreachable, query error): the tables are then left as they
  were and the reply carries the error.
\<close>

record user_row =
  user_id :: string
  user_email :: string

definition join_sender :: "user_row list \<Rightarrow> string \<Rightarrow> sender_field" where
  "join_sender users uid =
     (case find (\<lambda>u. user_id u = uid) users of
        None \<Rightarrow> Sender_null
      | Some u \<Rightarrow> Sender_object \<lparr> email = user_email u \<rparr>)"

definition joined_row :: "user_row list \<Rightarrow> msg_core \<Rightarrow> raw_row" where
  "joined_row users r =
     \<lparr> msg_id = msg_id r, content = content r, created_at = created_at r,
       sender_id = sender_id r, conversation_id = conversation_id r,
       sender_raw = join_sender users (sender_id r) \<rparr>"

text \<open>
  \<open>.eq('conversation_id', conversationId).order('created_at', { ascending: false })
  .range(from, to)\<close> with \<open>count: 'exact'\<close>: rows \<open>from\<close> to \<open>to\<close> (both
  inclusive, counted from 0) of the conversation's messages, newest first, and the
  number of all messages of the conversation.
\<close>

definition conversation_rows :: "string \<Rightarrow> msg_core list \<Rightarrow> msg_core list" where
  "conversation_rows conversationId tbl = filter (\<lambda>r. conversation_id r = conversationId) tbl"

definition store_select_messages ::
  "store_error option \<Rightarrow> user_row list \<Rightarrow> msg_core list \<Rightarrow> string \<Rightarrow> nat \<Rightarrow> nat \<Rightarrow> select_response" where
  "store_select_messages fault users tbl conversationId from to =
     (case fault of
        Some e \<Rightarrow> Select_response None (Some e) None
      | None \<Rightarrow>
          (let matching = conversation_rows conversationId tbl;
               newest_first = rev (sort_key created_at matching)
           in Select_response
                (Some (map (joined_row users) (take (to + 1 - from) (drop from newest_first))))
                None
                (Some (length matching))))"

text \<open>\<open>.update({ content }).eq('id', messageId).eq('sender_id', userId)\<close>\<close>

definition store_update_message ::
  "store_error option \<Rightarrow> string \<Rightarrow> string \<Rightarrow> js_string \<Rightarrow> msg_core list
     \<Rightarrow> store_error option \<times> msg_core list" where
  "store_update_message fault messageId userId newContent tbl =
     (case fault of
        Some e \<Rightarrow> (Some e, tbl)
      | None \<Rightarrow>
          (None, map (\<lambda>r. if msg_id r = messageId \<and> sender_id r = userId
                          then r\<lparr>content := newContent\<rparr> else r) tbl))"

text \<open>\<open>.delete().eq('id', messageId).eq('sender_id', userId)\<close>\<close>

definition store_delete_message ::
  "store_error option \<Rightarrow> string \<Rightarrow> string \<Rightarrow> msg_core list
     \<Rightarrow> store_error option \<times> msg_core list" where
  "store_delete_message fault messageId userId tbl =
     (case fault of
        Some e \<Rightarrow> (Some e, tbl)
      | None \<Rightarrow> (None, filter (\<lambda>r. \<not> (msg_id r = messageId \<and> sender_id r = userId)) tbl))"

text \<open>The rows a conditional write on \<open>messages\<close> touches.\<close>

definition affected_rows :: "string \<Rightarrow> string \<Rightarrow> msg_core list \<Rightarrow> msg_core list" where
  "affected_rows messageId userId tbl =
     filter (\<lambda>r. msg_id r = messageId \<and> sender_id r = userId) tbl"

section \<open>Accepting a friend request (components/FriendsList.tsx)\<close>

text \<open>
  The rows of the three tables the workflow writes. The columns \<open>id\<close>,
  \<open>sender_id\<close>, \<open>receiver_id\<close>, \<open>conversation_id\<close> and
  \<open>user_id\<close> carry the table as a prefix, as field names are global here.
\<close>

record friend_request_row =
  request_id :: string
  request_sender_id :: string
  request_receiver_id :: string
  status :: string

record conversation_row =
  conversation_row_id :: string
  conversation_created_at :: nat

record participant_row =
  participant_conversation_id :: string
  participant_user_id :: string

record store_tables =
  friend_requests :: "friend_request_row list"
  conversations :: "conversation_row list"
  participants :: "participant_row list"

definition single_error :: store_error where
  "single_error = Store_error ''JSON object requested, multiple (or no) rows returned''"

text \<open>
  Modelled from the spec: \<open>.update({ status }).eq('id', requestId)
  .select('sender_id, receiver_id').single()\<close> as a conditional write that returns
  the affected row. \<open>single()\<close> makes the call an error unless exactly one row is
  affected, and the write is then not kept.
\<close>

definition store_update_request_status ::
  "store_error option \<Rightarrow> string \<Rightarrow> string \<Rightarrow> store_tables
     \<Rightarrow> (string \<times> string) option \<times> store_error option \<times> store_tables" where
  "store_update_request_status fault requestId newStatus db =
     (case fault of
        Some e \<Rightarrow> (None, Some e, db)
      | None \<Rightarrow>
          (case filter (\<lambda>r. request_id r = requestId) (friend_requests db) of
             [r] \<Rightarrow>
               (Some (request_sender_id r, request_receiver_id r), None,
                db\<lparr>friend_requests :=
                     map (\<lambda>r. if request_id r = requestId then r\<lparr>status := newStatus\<rparr> else r)
                         (friend_requests db)\<rparr>)
           | _ \<Rightarrow> (None, Some single_error, db)))"

text \<open>
  Modelled from the spec: \<open>.insert({}).select('id').single()\<close> on
  \<open>conversations\<close>; \<open>assigned\<close> is the row with the id and the timestamp the
  store assigns.
\<close>

definition store_insert_conversation ::
  "store_error option \<Rightarrow> conversation_row \<Rightarrow> store_tables
     \<Rightarrow> conversation_row option \<times> store_error option \<times> store_tables" where
  "store_insert_conversation fault assigned db =
     (case fault of
        Some e \<Rightarrow> (None, Some e, db)
      | None \<Rightarrow> (Some assigned, None, db\<lparr>conversations := conversations db @ [assigned]\<rparr>))"

text \<open>Modelled from the spec: \<open>.insert([...])\<close> on \<open>participants\<close>, one statement.\<close>

definition store_insert_participants ::
  "store_error option \<Rightarrow> participant_row list \<Rightarrow> store_tables
     \<Rightarrow> store_error option \<times> store_tables" where
  "store_insert_participants fault rows db =
     (case fault of
        Some e \<Rightarrow> (Some e, db)
      | None \<Rightarrow> (None, db\<lparr>participants := participants db @ rows\<rparr>))"

text \<open>
  \<open>handleAcceptRequest(requestId)\<close>: the three store calls in the order of the
  source, each with its fault, threading the tables; the result is the tables after the
  handler and the effects it emitted. Reading a property of a null \<open>data\<close> throws a
  TypeError, which the \<open>catch\<close> reports like any other error.
\<close>

definition handleAcceptRequest ::
  "store_error option \<Rightarrow> store_error option \<Rightarrow> store_error option \<Rightarrow> conversation_row
     \<Rightarrow> string \<Rightarrow> store_tables \<Rightarrow> store_tables \<times> effect list" where
  "handleAcceptRequest updateFault conversationFault participantsFault assigned requestId db =
     (case store_update_request_status updateFault requestId ''accepted'' db of
        (request, updateError, db1) \<Rightarrow>
     (case updateError of
        Some e \<Rightarrow> (db1, [Toast_error (error_text e ''Failed to accept request'')])
      | None \<Rightarrow>
     (case store_insert_conversation conversationFault assigned db1 of
        (conversation, conversationError, db2) \<Rightarrow>
     (case conversationError of
        Some e \<Rightarrow> (db2, [Toast_error (error_text e ''Failed to accept request'')])
      | None \<Rightarrow>
     (case (conversation, request) of
        (Some c, Some (sender_uid, receiver_uid)) \<Rightarrow>
          (case store_insert_participants participantsFault
                  [\<lparr> participant_conversation_id = conversation_row_id c,
                     participant_user_id = sender_uid \<rparr>,
                   \<lparr> participant_conversation_id = conversation_row_id c,
                     participant_user_id = receiver_uid \<rparr>] db2 of
             (participantsError, db3) \<Rightarrow>
          (case participantsError of
             Some e \<Rightarrow> (db3, [Toast_error (error_text e ''Failed to accept request'')])
           | None \<Rightarrow>
               (db3, [Toast_success ''Friend request accepted'',
                      Select_conversation (conversation_row_id c)])))
      | _ \<Rightarrow> (db2, [Toast_error ''Cannot read properties of null'']))))))"

section \<open>The chat window as a state machine\<close>

text \<open>
  Every callback of \<open>ChatWindow\<close> is one event: the completion of a page load with
  its response, the scroll trigger, the three feed events, the two input fields, the
  edit buttons and the three gateway calls with the store's reply.
\<close>

datatype event =
    Conversation_changed
  | Loaded nat bool select_response
  | Scrolled nat
  | Inserted msg_core "sender_info option"
  | Updated msg_core
  | Deleted msg_core
  | New_message_typed js_string
  | Edit_typed js_string
  | Edit_started message
  | Edit_cancelled
  | Send_submitted "store_error option"
  | Edit_saved string "store_error option"
  | Delete_clicked string "store_error option"

fun apply_event :: "string \<Rightarrow> string \<Rightarrow> event \<Rightarrow> chat_window \<Rightarrow> chat_window" where
  "apply_event conversationId userId Conversation_changed st = conversation_effect st"
| "apply_event conversationId userId (Loaded pageNumber append_page resp) st =
     loadMessages (\<lambda>from to. resp) pageNumber append_page st"
| "apply_event conversationId userId (Scrolled scrollTop) st = fst (handleScroll scrollTop st)"
| "apply_event conversationId userId (Inserted newMsg lookup) st = insert_handler newMsg lookup st"
| "apply_event conversationId userId (Updated updatedMessage) st = update_handler updatedMessage st"
| "apply_event conversationId userId (Deleted deletedMessage) st = delete_handler deletedMessage st"
| "apply_event conversationId userId (New_message_typed v) st = st\<lparr>newMessage := v\<rparr>"
| "apply_event conversationId userId (Edit_typed v) st = st\<lparr>editMessage := v\<rparr>"
| "apply_event conversationId userId (Edit_started m) st = startEditMessage m st"
| "apply_event conversationId userId Edit_cancelled st = cancelEditMessage st"
| "apply_event conversationId userId (Send_submitted reply) st =
     sendMessage reply conversationId userId st"
| "apply_event conversationId userId (Edit_saved messageId reply) st =
     saveEditMessage reply userId messageId st"
| "apply_event conversationId userId (Delete_clicked messageId reply) st =
     deleteMessage reply userId messageId st"

fun run :: "string \<Rightarrow> string \<Rightarrow> event list \<Rightarrow> chat_window \<Rightarrow> chat_window" where
  "run conversationId userId [] st = st"
| "run conversationId userId (e # es) st =
     run conversationId userId es (apply_event conversationId userId e st)"

text \<open>The initial values of the \<open>useState\<close> cells.\<close>

definition initial_window :: chat_window where
  "initial_window =
     \<lparr> messages = [], newMessage = [], editMessage = [], loading = True, page = 0,
       hasMore = True, effects = [] \<rparr>"

text \<open>The ids of the list, in order.\<close>

definition ids :: "message list \<Rightarrow> string list" where
  "ids ms = map msg_id ms"

text \<open>The messages a loaded page or a live insert brings into the list, if any.\<close>

fun incoming :: "event \<Rightarrow> message list" where
  "incoming (Loaded pageNumber append_page resp) =
     (case resp_error resp of Some e \<Rightarrow> [] | None \<Rightarrow> page_messages (resp_data resp))"
| "incoming (Inserted newMsg lookup) =
     (case lookup of
        None \<Rightarrow> []
      | Some d \<Rightarrow> messages (insert_handler newMsg lookup initial_window))"
| "incoming e = []"

text \<open>
  An event brings only new ids: the ids it brings are pairwise different, and none is
  in the list already, unless the event replaces the list.
\<close>

fun replaces_list :: "event \<Rightarrow> bool" where
  "replaces_list (Loaded pageNumber append_page resp) = (\<not> append_page)"
| "replaces_list e = False"

definition brings_new_ids :: "event \<Rightarrow> message list \<Rightarrow> bool" where
  "brings_new_ids e ms =
     (distinct (ids (incoming e)) \<and>
      (replaces_list e \<or> (\<forall>i \<in> set (ids (incoming e)). i \<notin> set (ids ms))))"

text \<open>
  An event respects the order of time: a page is what an ordered read returns (newest
  first, so oldest first once reversed), a prepended page holds nothing newer than any
  message of the list, and a live insert is not older than any message of the list.
\<close>

fun in_time_order :: "event \<Rightarrow> message list \<Rightarrow> bool" where
  "in_time_order (Loaded pageNumber append_page resp) ms =
     (sorted (map created_at (incoming (Loaded pageNumber append_page resp))) \<and>
      (append_page \<longrightarrow>
         (\<forall>p \<in> set (incoming (Loaded pageNumber append_page resp)).
            \<forall>m \<in> set ms. created_at p \<le> created_at m)))"
| "in_time_order (Inserted newMsg lookup) ms =
     (\<forall>p \<in> set (incoming (Inserted newMsg lookup)).
        \<forall>m \<in> set ms. created_at m \<le> created_at p)"
| "in_time_order e ms = True"

text \<open>A condition on events holds all along a run, each time on the list of the moment.\<close>

fun along :: "(event \<Rightarrow> message list \<Rightarrow> bool) \<Rightarrow> string \<Rightarrow> string \<Rightarrow> event list
                \<Rightarrow> chat_window \<Rightarrow> bool" where
  "along ok conversationId userId [] st = True"
| "along ok conversationId userId (e # es) st =
     (ok e (messages st) \<and>
      along ok conversationId userId es (apply_event conversationId userId e st))"

text \<open>
  Every message of the list whose editing flag is set carries the same id: at most one
  id is being edited.
\<close>

definition one_id_edited :: "message list \<Rightarrow> bool" where
  "one_id_edited ms =
     (\<forall>m \<in> set ms. \<forall>m' \<in> set ms. editing m \<and> editing m' \<longrightarrow> msg_id m = msg_id m')"

section \<open>Sample data\<close>

definition sample_core :: "string \<Rightarrow> string \<Rightarrow> nat \<Rightarrow> string \<Rightarrow> msg_core" where
  "sample_core i c t s =
     \<lparr> msg_id = i, content = utf16 c, created_at = t, sender_id = s, conversation_id = ''c1'' \<rparr>"

definition sample_message :: "string \<Rightarrow> string \<Rightarrow> nat \<Rightarrow> string \<Rightarrow> bool option \<Rightarrow> message" where
  "sample_message i c t s e =
     \<lparr> msg_id = i, content = utf16 c, created_at = t, sender_id = s, conversation_id = ''c1'',
       sender = Some \<lparr> email = s @ ''@example.org'' \<rparr>, isEditing = e \<rparr>"

text \<open>Two loaded messages, the first one being edited.\<close>

definition sample_window :: chat_window where
  "sample_window =
     initial_window
       \<lparr> messages := [sample_message ''m1'' ''hello'' 10 ''alice'' (Some True),
                      sample_message ''m2'' ''world'' 20 ''bob'' None],
         editMessage := utf16 ''hello'', loading := False, hasMore := False \<rparr>"

definition sample_raw :: "string \<Rightarrow> string \<Rightarrow> nat \<Rightarrow> string \<Rightarrow> raw_row" where
  "sample_raw i c t s =
     \<lparr> msg_id = i, content = utf16 c, created_at = t, sender_id = s, conversation_id = ''c1'',
       sender_raw = Sender_object \<lparr> email = s @ ''@example.org'' \<rparr> \<rparr>"

text \<open>The newest page of a conversation of two messages, newest first.\<close>

definition sample_page :: select_response where
  "sample_page =
     Select_response
       (Some [sample_raw ''m2'' ''world'' 20 ''bob'', sample_raw ''m1'' ''hello'' 10 ''alice''])
       None (Some 2)"

text \<open>A page that holds one older message.\<close>

definition older_page :: select_response where
  "older_page = Select_response (Some [sample_raw ''m0'' ''first'' 5 ''alice'']) None (Some 3)"

definition bob :: sender_info where
  "bob = \<lparr> email = ''bob@example.org'' \<rparr>"

text \<open>
  A table with 25 messages of conversation \<open>c1\<close>, stored oldest first, and one
  message of another conversation.
\<close>

definition busy_table :: "msg_core list" where
  "busy_table =
     map (\<lambda>k. sample_core (replicate (Suc k) CHR ''m'') ''hi'' (100 + k) ''alice'') [0..<25] @
     [\<lparr> msg_id = ''x'', content = utf16 ''elsewhere'', created_at = 7, sender_id = ''carol'',
        conversation_id = ''c2'' \<rparr>]"

text \<open>The rows of \<open>users\<close>.\<close>

definition sample_users :: "user_row list" where
  "sample_users =
     [\<lparr> user_id = ''bob'', user_email = ''bob@example.org'' \<rparr>,
      \<lparr> user_id = ''alice'', user_email = ''alice@example.org'' \<rparr>]"

text \<open>A pending request from alice to bob, and nothing else.\<close>

definition sample_tables :: store_tables where
  "sample_tables =
     \<lparr> friend_requests =
         [\<lparr> request_id = ''r1'', request_sender_id = ''alice'', request_receiver_id = ''bob'',
            status = ''pending'' \<rparr>],
       conversations = [], participants = [] \<rparr>"

definition new_conversation :: conversation_row where
  "new_conversation = \<lparr> conversation_row_id = ''c9'', conversation_created_at = 40 \<rparr>"

section \<open>Auxiliary facts\<close>

lemma not_in_ids: "i \<notin> set (ids ms) \<Longrightarrow> m \<in> set ms \<Longrightarrow> msg_id m \<noteq> i"
  by (auto simp: ids_def)

lemma dropWhile_rest: "(\<forall>x \<in> set (dropWhile P s). P x) = (\<forall>x \<in> set s. P x)"
  by (induction s) auto

lemma trim_empty: "(trim s = []) = (\<forall>c \<in> set s. is_space c)"
  by (simp add: trim_def dropWhile_rest)

section \<open>What each handler does to the list\<close>

lemma messages_sendMessage [simp]: "messages (sendMessage r c u st) = messages st"
  by (simp add: sendMessage_def Let_def split: option.splits)

lemma messages_saveEditMessage [simp]: "messages (saveEditMessage r u i st) = messages st"
  by (simp add: saveEditMessage_def Let_def split: option.splits)

lemma messages_deleteMessage [simp]: "messages (deleteMessage r u i st) = messages st"
  by (simp add: deleteMessage_def Let_def split: option.splits)

lemma messages_handleScroll [simp]: "messages (fst (handleScroll t st)) = messages st"
  by (simp add: handleScroll_def Let_def)

lemma messages_conversation_effect [simp]: "messages (conversation_effect st) = messages st"
  by (simp add: conversation_effect_def)

lemma messages_loadMessages:
  "messages (loadMessages sel n a st) =
     (case resp_error (sel (n * MESSAGES_PER_PAGE) (n * MESSAGES_PER_PAGE + MESSAGES_PER_PAGE - 1)) of
        Some e \<Rightarrow> messages st
      | None \<Rightarrow>
          if a then page_messages (resp_data (sel (n * MESSAGES_PER_PAGE) (n * MESSAGES_PER_PAGE + MESSAGES_PER_PAGE - 1))) @ messages st
          else page_messages (resp_data (sel (n * MESSAGES_PER_PAGE) (n * MESSAGES_PER_PAGE + MESSAGES_PER_PAGE - 1))))"
  by (simp add: loadMessages_def Let_def split: option.splits)

lemma messages_insert_handler:
  "messages (insert_handler newMsg lookup st) = messages st @ incoming (Inserted newMsg lookup)"
  by (simp add: insert_handler_def initial_window_def split: option.splits)

lemma created_at_update: "map created_at (messages (update_handler ev st)) = map created_at (messages st)"
  by (simp add: update_handler_def)

lemma ids_update: "ids (messages (update_handler ev st)) = ids (messages st)"
  by (simp add: update_handler_def ids_def)

lemma created_at_startEdit: "map created_at (messages (startEditMessage m st)) = map created_at (messages st)"
  by (simp add: startEditMessage_def)

lemma ids_startEdit: "ids (messages (startEditMessage m st)) = ids (messages st)"
  by (simp add: startEditMessage_def ids_def)

lemma created_at_cancelEdit: "map created_at (messages (cancelEditMessage st)) = map created_at (messages st)"
  by (simp add: cancelEditMessage_def)

lemma ids_cancelEdit: "ids (messages (cancelEditMessage st)) = ids (messages st)"
  by (simp add: cancelEditMessage_def ids_def)

lemma sorted_loadMessages:
  assumes "sorted (map created_at (messages st))" and "in_time_order (Loaded n a resp) (messages st)"
  shows "sorted (map created_at (messages (loadMessages (\<lambda>from to. resp) n a st)))"
proof (cases "resp_error resp")
  case None
  with assms show ?thesis
    by (cases a) (simp_all add: messages_loadMessages sorted_append)
next
  case (Some e)
  with assms show ?thesis by (simp add: messages_loadMessages)
qed

lemma sorted_insert_handler:
  assumes "sorted (map created_at (messages st))" and "in_time_order (Inserted newMsg lookup) (messages st)"
  shows "sorted (map created_at (messages (insert_handler newMsg lookup st)))"
proof (cases lookup)
  case None
  with assms show ?thesis by (simp add: insert_handler_def)
next
  case (Some d)
  with assms show ?thesis
    by (simp add: insert_handler_def initial_window_def sorted_append)
qed

lemma sorted_step:
  assumes "sorted (map created_at (messages st))" and "in_time_order e (messages st)"
  shows "sorted (map created_at (messages (apply_event c u e st)))"
proof (cases e)
  case (Loaded n a resp)
  with assms show ?thesis by (simp only: apply_event.simps sorted_loadMessages)
next
  case (Inserted newMsg lookup)
  with assms show ?thesis by (simp only: apply_event.simps sorted_insert_handler)
next
  case (Updated ev)
  with assms show ?thesis by (simp add: created_at_update)
next
  case (Deleted ev)
  with assms show ?thesis by (simp add: delete_handler_def sorted_filter)
next
  case (Edit_started m)
  with assms show ?thesis by (simp add: created_at_startEdit)
next
  case Edit_cancelled
  with assms show ?thesis by (simp add: created_at_cancelEdit)
qed (use assms in simp_all)

lemma sorted_run:
  "sorted (map created_at (messages st)) \<Longrightarrow> along in_time_order c u evs st \<Longrightarrow>
   sorted (map created_at (messages (run c u evs st)))"
proof (induction evs arbitrary: st)
  case Nil
  then show ?case by simp
next
  case (Cons e es)
  from Cons.prems have "sorted (map created_at (messages (apply_event c u e st)))"
    by (simp add: sorted_step)
  with Cons show ?case by simp
qed

lemma distinct_ids_append:
  "distinct (ids (xs @ ys)) =
     (distinct (ids xs) \<and> distinct (ids ys) \<and> (\<forall>i \<in> set (ids xs). i \<notin> set (ids ys)))"
  unfolding ids_def by (simp only: map_append distinct_append) blast

lemma distinct_ids_filter: "distinct (ids ms) \<Longrightarrow> distinct (ids (filter P ms))"
  unfolding ids_def by (rule distinct_map_filter)

lemma distinct_loadMessages:
  assumes "distinct (ids (messages st))" and "brings_new_ids (Loaded n a resp) (messages st)"
  shows "distinct (ids (messages (loadMessages (\<lambda>from to. resp) n a st)))"
proof (cases "resp_error resp")
  case None
  with assms show ?thesis
    by (cases a) (simp_all add: messages_loadMessages brings_new_ids_def distinct_ids_append)
next
  case (Some e)
  with assms show ?thesis by (simp add: messages_loadMessages)
qed

lemma distinct_insert_handler:
  assumes "distinct (ids (messages st))" and "brings_new_ids (Inserted newMsg lookup) (messages st)"
  shows "distinct (ids (messages (insert_handler newMsg lookup st)))"
proof -
  have "\<forall>i \<in> set (ids (messages st)). i \<notin> set (ids (incoming (Inserted newMsg lookup)))"
    using assms(2) unfolding brings_new_ids_def by (simp only: replaces_list.simps) blast
  with assms show ?thesis
    unfolding messages_insert_handler distinct_ids_append brings_new_ids_def by blast
qed

lemma distinct_step:
  assumes "distinct (ids (messages st))" and "brings_new_ids e (messages st)"
  shows "distinct (ids (messages (apply_event c u e st)))"
proof (cases e)
  case (Loaded n a resp)
  with assms show ?thesis by (simp add: distinct_loadMessages)
next
  case (Inserted newMsg lookup)
  with assms show ?thesis by (simp add: distinct_insert_handler)
next
  case (Updated ev)
  with assms show ?thesis by (simp add: ids_update)
next
  case (Deleted ev)
  with assms show ?thesis by (simp add: delete_handler_def distinct_ids_filter)
next
  case (Edit_started m)
  with assms show ?thesis by (simp add: ids_startEdit)
next
  case Edit_cancelled
  with assms show ?thesis by (simp add: ids_cancelEdit)
qed (use assms in simp_all)

lemma distinct_run:
  "distinct (ids (messages st)) \<Longrightarrow> along brings_new_ids c u evs st \<Longrightarrow>
   distinct (ids (messages (run c u evs st)))"
proof (induction evs arbitrary: st)
  case Nil
  then show ?case by simp
next
  case (Cons e es)
  from Cons.prems have "distinct (ids (messages (apply_event c u e st)))"
    by (simp add: distinct_step)
  with Cons show ?case by simp
qed

lemma page_not_editing: "m \<in> set (page_messages d) \<Longrightarrow> \<not> editing m"
  by (auto simp: page_messages_def to_message_def editing_def split: option.splits)

lemma incoming_not_editing: "m \<in> set (incoming e) \<Longrightarrow> \<not> editing m"
proof (cases e)
  case (Loaded n a resp)
  assume "m \<in> set (incoming e)"
  with Loaded show ?thesis by (auto split: option.splits dest: page_not_editing)
next
  case (Inserted newMsg lookup)
  assume "m \<in> set (incoming e)"
  with Inserted show ?thesis
    by (auto simp: insert_handler_def initial_window_def editing_def split: option.splits)
qed simp_all

lemma one_id_edited_append:
  "\<forall>m \<in> set xs. \<not> editing m \<Longrightarrow> one_id_edited (xs @ ys) = one_id_edited ys"
  "\<forall>m \<in> set ys. \<not> editing m \<Longrightarrow> one_id_edited (xs @ ys) = one_id_edited xs"
  by (auto simp: one_id_edited_def)

lemma one_id_edited_none: "\<forall>m \<in> set xs. \<not> editing m \<Longrightarrow> one_id_edited xs"
  by (auto simp: one_id_edited_def)

lemma startEdit_flags:
  "x \<in> set (messages (startEditMessage b st)) \<Longrightarrow> editing x = (msg_id x = msg_id b)"
  by (auto simp: startEditMessage_def editing_def)

lemma cancelEdit_flags: "x \<in> set (messages (cancelEditMessage st)) \<Longrightarrow> \<not> editing x"
  by (auto simp: cancelEditMessage_def editing_def)

lemma one_id_edited_map:
  assumes "one_id_edited ms"
    and "\<And>m. m \<in> set ms \<Longrightarrow> msg_id (f m) = msg_id m"
    and "\<And>m. m \<in> set ms \<Longrightarrow> editing (f m) \<Longrightarrow> editing m"
  shows "one_id_edited (map f ms)"
  unfolding one_id_edited_def
proof (intro ballI impI)
  fix x y assume "x \<in> set (map f ms)" "y \<in> set (map f ms)" "editing x \<and> editing y"
  then obtain m m' where m: "m \<in> set ms" "x = f m" and m': "m' \<in> set ms" "y = f m'"
    and e: "editing (f m)" "editing (f m')" by auto
  from m m' e assms(3) have "editing m" "editing m'" by blast+
  with assms(1) m m' have "msg_id m = msg_id m'" unfolding one_id_edited_def by blast
  with m m' assms(2) show "msg_id x = msg_id y" by simp
qed

lemma edited_loadMessages:
  assumes "one_id_edited (messages st)"
  shows "one_id_edited (messages (loadMessages (\<lambda>from to. resp) n a st))"
proof -
  have ne: "\<forall>m \<in> set (page_messages (resp_data resp)). \<not> editing m"
    using page_not_editing by blast
  show ?thesis
    using assms one_id_edited_append(1) [OF ne] one_id_edited_none [OF ne]
    by (simp add: messages_loadMessages split: option.splits)
qed

lemma edited_update:
  assumes "one_id_edited (messages st)"
  shows "one_id_edited (messages (update_handler ev st))"
proof -
  have "one_id_edited (map (\<lambda>msg. if msg_id msg = msg_id ev
                     then msg\<lparr>content := content ev, isEditing := Some False\<rparr>
                     else msg) (messages st))"
    by (rule one_id_edited_map [OF assms]) (simp_all add: editing_def split: if_splits)
  then show ?thesis by (simp add: update_handler_def)
qed

lemma edited_delete:
  assumes "one_id_edited (messages st)"
  shows "one_id_edited (messages (delete_handler ev st))"
  using assms by (simp add: delete_handler_def one_id_edited_def)

lemma edited_startEdit: "one_id_edited (messages (startEditMessage m st))"
  unfolding one_id_edited_def using startEdit_flags [of _ m st] by simp

lemma edited_cancelEdit: "one_id_edited (messages (cancelEditMessage st))"
  using cancelEdit_flags [of _ st] by (blast intro: one_id_edited_none)

lemma edited_insert_handler:
  assumes "one_id_edited (messages st)"
  shows "one_id_edited (messages (insert_handler newMsg lookup st))"
proof -
  have ne: "\<forall>m \<in> set (incoming (Inserted newMsg lookup)). \<not> editing m"
    using incoming_not_editing by blast
  show ?thesis
    using assms one_id_edited_append(2) [OF ne] by (simp only: messages_insert_handler)
qed

lemma edited_step:
  assumes "one_id_edited (messages st)"
  shows "one_id_edited (messages (apply_event c u e st))"
proof (cases e)
  case (Loaded n a resp)
  with assms show ?thesis by (simp add: edited_loadMessages)
next
  case (Inserted newMsg lookup)
  with assms show ?thesis by (simp add: edited_insert_handler)
next
  case (Updated ev)
  with assms show ?thesis by (simp add: edited_update)
next
  case (Deleted ev)
  with assms show ?thesis by (simp add: edited_delete)
next
  case (Edit_started m)
  then show ?thesis by (simp add: edited_startEdit)
next
  case Edit_cancelled
  then show ?thesis by (simp add: edited_cancelEdit)
qed (use assms in simp_all)

lemma edited_run: "one_id_edited (messages st) \<Longrightarrow> one_id_edited (messages (run c u evs st))"
  by (induction evs arbitrary: st) (simp_all add: edited_step)

lemma one_id_edited_tail: "one_id_edited (m # ms) \<Longrightarrow> one_id_edited ms"
  unfolding one_id_edited_def by (meson list.set_intros(2))

lemma one_id_edited_head:
  "one_id_edited (m # ms) \<Longrightarrow> editing m \<Longrightarrow> x \<in> set ms \<Longrightarrow> editing x \<Longrightarrow> msg_id x = msg_id m"
  unfolding one_id_edited_def by (meson list.set_intros)

lemma one_flag_when_distinct:
  "distinct (ids ms) \<Longrightarrow> one_id_edited ms \<Longrightarrow> length (filter editing ms) \<le> 1"
proof (induction ms)
  case Nil
  then show ?case by simp
next
  case (Cons m ms)
  have rest: "one_id_edited ms" using Cons.prems(2) by (rule one_id_edited_tail)
  have d: "distinct (ids ms)" and fresh: "msg_id m \<notin> set (ids ms)"
    using Cons.prems(1) by (simp_all add: ids_def)
  show ?case
  proof (cases "editing m")
    case True
    have "\<forall>x \<in> set ms. \<not> editing x"
    proof (intro ballI notI)
      fix x assume x: "x \<in> set ms" and "editing x"
      with True Cons.prems(2) have "msg_id x = msg_id m" by (blast intro: one_id_edited_head)
      with x fresh show False using not_in_ids by blast
    qed
    then have "filter editing ms = []" by (simp only: filter_empty_conv)
    with True show ?thesis by simp
  next
    case False
    with Cons.IH [OF d rest] show ?thesis by simp
  qed
qed


section \<open>Live update\<close>

text \<open>
  C7. A live update event replaces the content of every message of the list that
  carries the event's id with the event's content and sets its editing flag to false;
  every other message, and the length and order of the list, stay as they are.
\<close>

theorem update_handler_replaces_matching:
  "length (messages (update_handler u st)) = length (messages st) \<and>
   (\<forall>i < length (messages st).
      messages (update_handler u st) ! i =
        (if msg_id (messages st ! i) = msg_id u
         then (messages st ! i)\<lparr>content := content u, isEditing := Some False\<rparr>
         else messages st ! i))"
  by (simp add: update_handler_def)

theorem update_handler_replaces_matching_witness:
  "messages (update_handler (sample_core ''m1'' ''edited'' 10 ''alice'') sample_window) ! 0 =
     sample_message ''m1'' ''edited'' 10 ''alice'' (Some False) \<and>
   messages (update_handler (sample_core ''m1'' ''edited'' 10 ''alice'') sample_window) ! 1 =
     sample_message ''m2'' ''world'' 20 ''bob'' None"
proof -
  let ?u = "sample_core ''m1'' ''edited'' 10 ''alice''"
  have len: "length (messages sample_window) = 2"
    by (simp add: sample_window_def initial_window_def)
  note step = update_handler_replaces_matching [of ?u sample_window, THEN conjunct2, rule_format]
  have "(0::nat) < length (messages sample_window)" using len by simp
  from step [OF this] have first: "messages (update_handler ?u sample_window) ! 0 =
      sample_message ''m1'' ''edited'' 10 ''alice'' (Some False)"
    by (simp add: sample_window_def initial_window_def sample_core_def sample_message_def)
  have "(1::nat) < length (messages sample_window)" using len by simp
  from step [OF this] have second: "messages (update_handler ?u sample_window) ! 1 =
      sample_message ''m2'' ''world'' 20 ''bob'' None"
    by (simp add: sample_window_def initial_window_def sample_core_def sample_message_def)
  from first second show ?thesis by simp
qed

section \<open>Events for an id that is not in the list\<close>

text \<open>
  C10. A live update or a live delete whose id no message of the list carries leaves
  the whole state of the window, and so the list and every editing flag, as it was.
\<close>

theorem unmatched_event_changes_nothing:
  assumes "msg_id ev \<notin> set (ids (messages st))"
  shows "update_handler ev st = st \<and> delete_handler ev st = st"
proof -
  have m: "map (\<lambda>msg. if msg_id msg = msg_id ev
                       then msg\<lparr>content := content ev, isEditing := Some False\<rparr>
                       else msg) (messages st) = messages st"
    using not_in_ids [OF assms] by (intro map_idI) simp
  have f: "filter (\<lambda>msg. msg_id msg \<noteq> msg_id ev) (messages st) = messages st"
    using not_in_ids [OF assms] by (simp add: filter_id_conv)
  show ?thesis by (simp add: update_handler_def delete_handler_def m f)
qed

theorem unmatched_event_changes_nothing_witness:
  "msg_id (sample_core ''m9'' ''late'' 30 ''bob'') \<notin> set (ids (messages sample_window)) \<and>
   update_handler (sample_core ''m9'' ''late'' 30 ''bob'') sample_window = sample_window \<and>
   delete_handler (sample_core ''m9'' ''late'' 30 ''bob'') sample_window = sample_window"
proof -
  have h: "msg_id (sample_core ''m9'' ''late'' 30 ''bob'') \<notin> set (ids (messages sample_window))"
    by (simp add: sample_window_def initial_window_def sample_core_def sample_message_def ids_def)
  from h unmatched_event_changes_nothing [OF h] show ?thesis by simp
qed

section \<open>Live insert and the lookup of the sender\<close>

text \<open>
  C9. When the lookup of the sender's email returns no record, the INSERT handler
  leaves the state as it was, so nothing is appended; when it returns a record, the
  message built from the event and that email is appended at the end of the list.
\<close>

theorem insert_handler_lookup:
  "insert_handler newMsg None st = st \<and>
   messages (insert_handler newMsg (Some d) st) =
     messages st @ [\<lparr> msg_id = msg_id newMsg, content = content newMsg,
                      created_at = created_at newMsg, sender_id = sender_id newMsg,
                      conversation_id = conversation_id newMsg,
                      sender = Some \<lparr> email = email d \<rparr>, isEditing = None \<rparr>]"
  by (simp add: insert_handler_def)

section \<open>Sending\<close>

lemma is_space_units:
  "is_space c =
     (c \<in> {0x0009, 0x000A, 0x000B, 0x000C, 0x000D, 0x0020, 0x00A0, 0x1680,
            0x2028, 0x2029, 0x202F, 0x205F, 0x3000, 0xFEFF} \<or>
      (0x2000 \<le> c \<and> c \<le> 0x200A))"
  by (simp only: is_space_def)

lemma effects_sendMessage:
  "trim (newMessage st) \<noteq> [] \<Longrightarrow>
   effects (sendMessage reply conversationId userId st) =
     effects st @
     Store_request (Insert_message conversationId userId (newMessage st)) #
     (case reply of
        None \<Rightarrow> []
      | Some e \<Rightarrow> [Toast_error (error_text e ''Failed to send message'')])"
  by (simp add: sendMessage_def Let_def split: option.splits)

text \<open>
  C8. When every code unit of the body typed into the input is white space or a line
  terminator (TAB, LF, VT, FF, CR, SP, NBSP, U+1680, U+2000 to U+200A, U+2028, U+2029,
  U+202F, U+205F, U+3000, U+FEFF), which includes the empty body, \<open>sendMessage\<close>
  returns before the store call: whatever the store would have replied, the state is
  unchanged, so the list and both buffers are as before and no request and no
  notification has been added to the effects. For every other body the insert is
  issued.
\<close>

theorem sendMessage_blank_body:
  "((\<forall>c \<in> set (newMessage st).
        c \<in> {0x0009, 0x000A, 0x000B, 0x000C, 0x000D, 0x0020, 0x00A0, 0x1680,
               0x2028, 0x2029, 0x202F, 0x205F, 0x3000, 0xFEFF} \<or>
        (0x2000 \<le> c \<and> c \<le> 0x200A)) \<longrightarrow>
      sendMessage reply conversationId userId st = st) \<and>
   (\<not> (\<forall>c \<in> set (newMessage st).
        c \<in> {0x0009, 0x000A, 0x000B, 0x000C, 0x000D, 0x0020, 0x00A0, 0x1680,
               0x2028, 0x2029, 0x202F, 0x205F, 0x3000, 0xFEFF} \<or>
        (0x2000 \<le> c \<and> c \<le> 0x200A)) \<longrightarrow>
      effects (sendMessage reply conversationId userId st) =
        effects st @
        Store_request (Insert_message conversationId userId (newMessage st)) #
        (case reply of
           None \<Rightarrow> []
         | Some e \<Rightarrow> [Toast_error (error_text e ''Failed to send message'')]))"
proof -
  have blank: "(trim (newMessage st) = []) =
      (\<forall>c \<in> set (newMessage st).
        c \<in> {0x0009, 0x000A, 0x000B, 0x000C, 0x000D, 0x0020, 0x00A0, 0x1680,
               0x2028, 0x2029, 0x202F, 0x205F, 0x3000, 0xFEFF} \<or>
        (0x2000 \<le> c \<and> c \<le> 0x200A))"
    by (simp only: trim_empty is_space_units)
  show ?thesis
  proof (intro conjI impI)
    assume "\<forall>c \<in> set (newMessage st).
        c \<in> {0x0009, 0x000A, 0x000B, 0x000C, 0x000D, 0x0020, 0x00A0, 0x1680,
               0x2028, 0x2029, 0x202F, 0x205F, 0x3000, 0xFEFF} \<or>
        (0x2000 \<le> c \<and> c \<le> 0x200A)"
    with blank have "trim (newMessage st) = []" by blast
    then show "sendMessage reply conversationId userId st = st"
      by (simp add: sendMessage_def)
  next
    assume "\<not> (\<forall>c \<in> set (newMessage st).
        c \<in> {0x0009, 0x000A, 0x000B, 0x000C, 0x000D, 0x0020, 0x00A0, 0x1680,
               0x2028, 0x2029, 0x202F, 0x205F, 0x3000, 0xFEFF} \<or>
        (0x2000 \<le> c \<and> c \<le> 0x200A))"
    with blank have "trim (newMessage st) \<noteq> []" by blast
    then show "effects (sendMessage reply conversationId userId st) =
        effects st @
        Store_request (Insert_message conversationId userId (newMessage st)) #
        (case reply of
           None \<Rightarrow> []
         | Some e \<Rightarrow> [Toast_error (error_text e ''Failed to send message'')])"
      by (rule effects_sendMessage)
  qed
qed

theorem sendMessage_blank_body_witness:
  "sendMessage None ''c1'' ''alice''
       (sample_window\<lparr>newMessage := [0x3000, 0x0020, 0x2003, 0x2028, 0xFEFF, 0x0009]\<rparr>) =
     sample_window\<lparr>newMessage := [0x3000, 0x0020, 0x2003, 0x2028, 0xFEFF, 0x0009]\<rparr> \<and>
   sendMessage None ''c1'' ''alice'' sample_window = sample_window \<and>
   effects (sendMessage None ''c1'' ''alice''
              (sample_window\<lparr>newMessage := [0x0020, 0x0068, 0x0069]\<rparr>)) =
     [Store_request (Insert_message ''c1'' ''alice'' [0x0020, 0x0068, 0x0069])]"
proof -
  let ?blank = "sample_window\<lparr>newMessage := [0x3000, 0x0020, 0x2003, 0x2028, 0xFEFF, 0x0009]\<rparr>"
  let ?hi = "sample_window\<lparr>newMessage := [0x0020, 0x0068, 0x0069]\<rparr>"
  note b = sendMessage_blank_body [of ?blank None "''c1''" "''alice''", THEN conjunct1]
  note e = sendMessage_blank_body [of sample_window None "''c1''" "''alice''", THEN conjunct1]
  note t = sendMessage_blank_body [of ?hi None "''c1''" "''alice''", THEN conjunct2]
  have 1: "sendMessage None ''c1'' ''alice'' ?blank = ?blank"
    by (rule b [THEN mp]) simp
  have 2: "sendMessage None ''c1'' ''alice'' sample_window = sample_window"
    by (rule e [THEN mp]) (simp add: sample_window_def initial_window_def)
  have "effects (sendMessage None ''c1'' ''alice'' ?hi) =
          effects ?hi @ Store_request (Insert_message ''c1'' ''alice'' (newMessage ?hi)) #
          (case None of None \<Rightarrow> []
           | Some e \<Rightarrow> [Toast_error (error_text e ''Failed to send message'')])"
    by (rule t [THEN mp]) simp
  then have 3: "effects (sendMessage None ''c1'' ''alice'' ?hi) =
      [Store_request (Insert_message ''c1'' ''alice'' [0x0020, 0x0068, 0x0069])]"
    by (simp add: sample_window_def initial_window_def)
  from 1 2 3 show ?thesis by simp
qed

section \<open>Duplicate ids\<close>

text \<open>
  C1, as stated, fails: neither path looks at the ids. A live insert whose message
  the first page already holds is appended all the same, and a page prepended after
  a live insert of one of its messages keeps its copy; either way the id \<open>m2\<close>
  ends up twice in the list.
\<close>

theorem duplicate_id_counterexample:
  "ids (messages (run ''c1'' ''alice''
        [Loaded 0 False sample_page, Inserted (sample_core ''m2'' ''world'' 20 ''bob'') (Some bob)]
        initial_window)) = [''m1'', ''m2'', ''m2''] \<and>
   ids (messages (run ''c1'' ''alice''
        [Inserted (sample_core ''m2'' ''world'' 20 ''bob'') (Some bob), Loaded 1 True sample_page]
        initial_window)) = [''m1'', ''m2'', ''m2'']"
  by (simp add: sample_page_def sample_raw_def sample_core_def bob_def initial_window_def ids_def
        loadMessages_def insert_handler_def page_messages_def to_message_def
        MESSAGES_PER_PAGE_def)

text \<open>
  C1, amended. No id appears twice in the list after any sequence of events, as long
  as every loaded page and every live insert brings only new ids: the ids of a page
  are pairwise different, and no id of a prepended page or of a live insert is in the
  list at that moment. The list operations themselves drop nothing by id.
\<close>

theorem ids_stay_distinct:
  assumes "distinct (ids (messages st))"
    and "along brings_new_ids conversationId userId evs st"
  shows "distinct (ids (messages (run conversationId userId evs st)))"
  using assms by (rule distinct_run)

theorem ids_stay_distinct_witness:
  "ids (messages (run ''c1'' ''alice''
        [Loaded 0 False sample_page, Inserted (sample_core ''m3'' ''again'' 30 ''bob'') (Some bob),
         Loaded 1 True older_page]
        initial_window)) = [''m0'', ''m1'', ''m2'', ''m3''] \<and>
   distinct (ids (messages (run ''c1'' ''alice''
        [Loaded 0 False sample_page, Inserted (sample_core ''m3'' ''again'' 30 ''bob'') (Some bob),
         Loaded 1 True older_page]
        initial_window)))"
proof -
  let ?evs = "[Loaded 0 False sample_page,
               Inserted (sample_core ''m3'' ''again'' 30 ''bob'') (Some bob),
               Loaded 1 True older_page]"
  note defs = sample_page_def older_page_def sample_raw_def sample_core_def bob_def
    initial_window_def ids_def loadMessages_def insert_handler_def page_messages_def
    to_message_def MESSAGES_PER_PAGE_def
  have d: "distinct (ids (messages initial_window))"
    by (simp add: initial_window_def ids_def)
  have a: "along brings_new_ids ''c1'' ''alice'' ?evs initial_window"
    by (simp add: brings_new_ids_def defs)
  have v: "ids (messages (run ''c1'' ''alice'' ?evs initial_window)) =
             [''m0'', ''m1'', ''m2'', ''m3'']"
    by (simp add: defs)
  from v ids_stay_distinct [OF d a] show ?thesis by simp
qed

section \<open>The editing flag\<close>

lemma startEdit_by_position:
  "length (messages (startEditMessage b st)) = length (messages st) \<and>
   (\<forall>i < length (messages st).
      messages (startEditMessage b st) ! i =
        (messages st ! i)\<lparr>isEditing := Some (msg_id (messages st ! i) = msg_id b)\<rparr>)"
  by (simp add: startEditMessage_def)

lemma cancelEdit_by_position:
  "length (messages (cancelEditMessage st)) = length (messages st) \<and>
   (\<forall>i < length (messages st).
      messages (cancelEditMessage st) ! i = (messages st ! i)\<lparr>isEditing := Some False\<rparr>)"
  by (simp add: cancelEditMessage_def)

text \<open>
  C6, as stated, fails: once an id is in the list twice (a first page, then the live
  insert of a message that page holds), starting an edit on it sets the flag on both
  entries.
\<close>

theorem two_editing_flags_counterexample:
  "length (filter editing (messages (run ''c1'' ''bob''
        [Loaded 0 False sample_page, Inserted (sample_core ''m2'' ''world'' 20 ''bob'') (Some bob),
         Edit_started (sample_message ''m2'' ''world'' 20 ''bob'' None)]
        initial_window))) = 2"
  by (simp add: sample_page_def sample_raw_def sample_core_def sample_message_def bob_def
        initial_window_def loadMessages_def insert_handler_def startEditMessage_def editing_def
        page_messages_def to_message_def MESSAGES_PER_PAGE_def)

text \<open>
  C6, amended. At most one message id has the editing flag set at any time: every
  event keeps this, and it holds in every state reached from the initial one.
  Starting an edit on B keeps every entry of the list in its place, sets the flag to
  true on the entries that carry B's id and to false on every other entry, and puts
  B's content into the edit buffer; cancelling keeps every entry in its place, sets
  the flag to false on all of them and empties the buffer. In a list without
  duplicate ids, at most one entry has the flag set.
\<close>

theorem editing_flag_on_one_id:
  "(one_id_edited (messages st) \<longrightarrow>
      one_id_edited (messages (run conversationId userId evs st))) \<and>
   one_id_edited (messages (run conversationId userId evs initial_window)) \<and>
   length (messages (startEditMessage b st)) = length (messages st) \<and>
   (\<forall>i < length (messages st).
      messages (startEditMessage b st) ! i =
        (messages st ! i)\<lparr>isEditing := Some (msg_id (messages st ! i) = msg_id b)\<rparr>) \<and>
   editMessage (startEditMessage b st) = content b \<and>
   length (messages (cancelEditMessage st)) = length (messages st) \<and>
   (\<forall>i < length (messages st).
      messages (cancelEditMessage st) ! i = (messages st ! i)\<lparr>isEditing := Some False\<rparr>) \<and>
   editMessage (cancelEditMessage st) = [] \<and>
   (\<forall>x \<in> set (messages (startEditMessage b st)). editing x = (msg_id x = msg_id b)) \<and>
   (\<forall>x \<in> set (messages (cancelEditMessage st)). \<not> editing x) \<and>
   (distinct (ids (messages st)) \<and> one_id_edited (messages st) \<longrightarrow>
      length (filter editing (messages st)) \<le> 1)"
proof -
  have "one_id_edited (messages initial_window)"
    by (simp add: initial_window_def one_id_edited_def)
  then have reach: "one_id_edited (messages (run conversationId userId evs initial_window))"
    by (rule edited_run)
  have bufs: "editMessage (startEditMessage b st) = content b"
    "editMessage (cancelEditMessage st) = []"
    by (simp_all add: startEditMessage_def cancelEditMessage_def)
  from reach bufs show ?thesis
    using edited_run [of st conversationId userId evs]
      startEdit_by_position [of b st] cancelEdit_by_position [of st]
      startEdit_flags [of _ b st] cancelEdit_flags [of _ st]
      one_flag_when_distinct [of "messages st"]
    by (intro conjI impI ballI) blast+
qed

theorem editing_flag_on_one_id_witness:
  "one_id_edited (messages sample_window) \<and>
   messages (startEditMessage (sample_message ''m2'' ''world'' 20 ''bob'' None) sample_window) ! 0 =
     sample_message ''m1'' ''hello'' 10 ''alice'' (Some False) \<and>
   messages (startEditMessage (sample_message ''m2'' ''world'' 20 ''bob'' None) sample_window) ! 1 =
     sample_message ''m2'' ''world'' 20 ''bob'' (Some True) \<and>
   messages (cancelEditMessage sample_window) ! 0 =
     sample_message ''m1'' ''hello'' 10 ''alice'' (Some False) \<and>
   messages (cancelEditMessage sample_window) ! 1 =
     sample_message ''m2'' ''world'' 20 ''bob'' (Some False) \<and>
   one_id_edited (messages (run ''c1'' ''bob''
        [Edit_started (sample_message ''m2'' ''world'' 20 ''bob'' None),
         Inserted (sample_core ''m3'' ''again'' 30 ''bob'') (Some bob)] sample_window)) \<and>
   messages (run ''c1'' ''bob''
        [Edit_started (sample_message ''m2'' ''world'' 20 ''bob'' None),
         Inserted (sample_core ''m3'' ''again'' 30 ''bob'') (Some bob)] sample_window) =
     [sample_message ''m1'' ''hello'' 10 ''alice'' (Some False),
      sample_message ''m2'' ''world'' 20 ''bob'' (Some True),
      sample_message ''m3'' ''again'' 30 ''bob'' None]"
proof -
  let ?b = "sample_message ''m2'' ''world'' 20 ''bob'' None"
  let ?evs = "[Edit_started ?b, Inserted (sample_core ''m3'' ''again'' 30 ''bob'') (Some bob)]"
  note defs = sample_window_def sample_core_def sample_message_def bob_def initial_window_def
    insert_handler_def startEditMessage_def editing_def
  note all = editing_flag_on_one_id [of sample_window "''c1''" "''bob''" ?evs ?b]
  have len: "length (messages sample_window) = 2"
    by (simp add: sample_window_def initial_window_def)
  have h: "one_id_edited (messages sample_window)"
    by (simp add: one_id_edited_def defs)
  from all h have r: "one_id_edited (messages (run ''c1'' ''bob'' ?evs sample_window))" by blast
  from all have start: "\<forall>i < length (messages sample_window).
      messages (startEditMessage ?b sample_window) ! i =
        (messages sample_window ! i)\<lparr>isEditing := Some (msg_id (messages sample_window ! i) = msg_id ?b)\<rparr>"
    and cancel: "\<forall>i < length (messages sample_window).
      messages (cancelEditMessage sample_window) ! i =
        (messages sample_window ! i)\<lparr>isEditing := Some False\<rparr>"
    by blast+
  have i0: "(0::nat) < length (messages sample_window)" and i1: "(1::nat) < length (messages sample_window)"
    using len by simp_all
  from start [rule_format, OF i0]
  have s0: "messages (startEditMessage ?b sample_window) ! 0 =
      sample_message ''m1'' ''hello'' 10 ''alice'' (Some False)"
    by (simp add: sample_window_def initial_window_def sample_message_def)
  from start [rule_format, OF i1]
  have s1: "messages (startEditMessage ?b sample_window) ! 1 =
      sample_message ''m2'' ''world'' 20 ''bob'' (Some True)"
    by (simp add: sample_window_def initial_window_def sample_message_def)
  from cancel [rule_format, OF i0]
  have c0: "messages (cancelEditMessage sample_window) ! 0 =
      sample_message ''m1'' ''hello'' 10 ''alice'' (Some False)"
    by (simp add: sample_window_def initial_window_def sample_message_def)
  from cancel [rule_format, OF i1]
  have c1: "messages (cancelEditMessage sample_window) ! 1 =
      sample_message ''m2'' ''world'' 20 ''bob'' (Some False)"
    by (simp add: sample_window_def initial_window_def sample_message_def)
  have v: "messages (run ''c1'' ''bob'' ?evs sample_window) =
     [sample_message ''m1'' ''hello'' 10 ''alice'' (Some False),
      sample_message ''m2'' ''world'' 20 ''bob'' (Some True),
      sample_message ''m3'' ''again'' 30 ''bob'' None]"
    by (simp add: defs)
  from h s0 s1 c0 c1 r v show ?thesis by blast
qed


section \<open>Pagination\<close>

lemma rev_window:
  "rev (take k (drop f (rev s))) = drop (length s - f - k) (take (length s - f) s)"
  by (simp add: rev_take rev_drop)

lemma store_page:
  "store_select_messages None users tbl c (n * 20) (n * 20 + 19) =
     Select_response
       (Some (map (joined_row users)
                (take 20 (drop (n * 20) (rev (sort_key created_at (conversation_rows c tbl)))))))
       None (Some (length (conversation_rows c tbl)))"
  by (simp add: store_select_messages_def Let_def)

lemma store_page_messages:
  "page_messages (resp_data (store_select_messages None users tbl c (n * 20) (n * 20 + 19))) =
     map (to_message \<circ> joined_row users)
       (drop (length (conversation_rows c tbl) - n * 20 - 20)
          (take (length (conversation_rows c tbl) - n * 20)
             (sort_key created_at (conversation_rows c tbl))))"
proof -
  let ?s = "sort_key created_at (conversation_rows c tbl)"
  have "page_messages (resp_data (store_select_messages None users tbl c (n * 20) (n * 20 + 19))) =
          map (to_message \<circ> joined_row users) (rev (take 20 (drop (n * 20) (rev ?s))))"
    by (simp add: store_page page_messages_def rev_map)
  also have "rev (take 20 (drop (n * 20) (rev ?s))) =
          drop (length ?s - n * 20 - 20) (take (length ?s - n * 20) ?s)"
    by (rule rev_window)
  finally show ?thesis by simp
qed

lemma store_page_descending:
  "resp_data (store_select_messages fault users tbl c from to) = Some rows \<Longrightarrow>
   sorted (rev (map created_at rows))"
proof -
  assume a: "resp_data (store_select_messages fault users tbl c from to) = Some rows"
  let ?s = "sort_key created_at (conversation_rows c tbl)"
  from a have rows: "rows = map (joined_row users) (take (to + 1 - from) (drop from (rev ?s)))"
    by (auto simp: store_select_messages_def Let_def split: option.splits)
  have "map created_at rows = take (to + 1 - from) (drop from (rev (map created_at ?s)))"
    by (simp add: rows joined_row_def comp_def take_map drop_map rev_map)
  moreover have "sorted (map created_at ?s)" by simp
  ultimately show ?thesis
    by (simp add: rev_window sorted_wrt_drop sorted_wrt_take)
qed

lemma loadMessages_window:
  "loadMessages select_range n a st =
     loadMessages (\<lambda>from to. select_range (n * 20) (n * 20 + 19)) n a st"
proof -
  have "n * 20 + 20 - 1 = n * 20 + 19" by simp
  then show ?thesis
    unfolding loadMessages_def MESSAGES_PER_PAGE_def Let_def by (simp only:)
qed

lemma loadMessages_response:
  "loadMessages (\<lambda>from to. Select_response (Some rows) None (Some totalCount)) n a st =
     (if a
      then st\<lparr>messages := map to_message (rev rows) @ messages st,
              hasMore := n * 20 + length rows < totalCount, loading := False\<rparr>
      else st\<lparr>messages := map to_message (rev rows),
              effects := effects st @ [Scroll_to_bottom],
              hasMore := n * 20 + length rows < totalCount, loading := False\<rparr>)"
  by (simp add: loadMessages_def MESSAGES_PER_PAGE_def page_messages_def Let_def)

lemma loadMessages_success:
  assumes "select_range (n * 20) (n * 20 + 19) = Select_response (Some rows) None (Some totalCount)"
  shows "messages (loadMessages select_range n False st) = map to_message (rev rows)"
    and "messages (loadMessages select_range n True st) = map to_message (rev rows) @ messages st"
    and "hasMore (loadMessages select_range n a st) = (n * 20 + length rows < totalCount)"
    and "loading (loadMessages select_range n a st) = False"
    and "page (loadMessages select_range n a st) = page st"
proof -
  have eq: "loadMessages select_range n a st =
      loadMessages (\<lambda>from to. Select_response (Some rows) None (Some totalCount)) n a st" for a
    by (subst loadMessages_window) (simp only: assms)
  show "messages (loadMessages select_range n False st) = map to_message (rev rows)"
    by (simp add: eq loadMessages_response)
  show "messages (loadMessages select_range n True st) = map to_message (rev rows) @ messages st"
    by (simp add: eq loadMessages_response)
  show "hasMore (loadMessages select_range n a st) = (n * 20 + length rows < totalCount)"
    by (simp add: eq loadMessages_response)
  show "loading (loadMessages select_range n a st) = False"
    by (simp add: eq loadMessages_response)
  show "page (loadMessages select_range n a st) = page st"
    by (simp add: eq loadMessages_response)
qed

lemma scenario_25:
  assumes "length (conversation_rows c tbl) = 25"
  shows "(let select_range = store_select_messages None users tbl c;
              ascending = map (to_message \<circ> joined_row users)
                            (sort_key created_at (conversation_rows c tbl));
              first = loadMessages select_range 0 False (conversation_effect st);
              scrolled = handleScroll 0 first;
              second = loadMessages select_range 1 True (fst scrolled)
          in messages first = drop 5 ascending \<and> length (messages first) = 20 \<and> hasMore first \<and>
             snd scrolled = Some 1 \<and>
             messages second = ascending \<and> length (messages second) = 25 \<and> \<not> hasMore second)"
proof -
  let ?sel = "store_select_messages None users tbl c"
  let ?s = "sort_key created_at (conversation_rows c tbl)"
  let ?asc = "map (to_message \<circ> joined_row users) ?s"
  let ?first = "loadMessages ?sel 0 False (conversation_effect st)"
  let ?second = "loadMessages ?sel 1 True (fst (handleScroll 0 ?first))"
  have len: "length ?s = 25" using assms by simp
  have r0: "?sel (0 * 20) (0 * 20 + 19) =
      Select_response (Some (map (joined_row users) (take 20 (drop (0 * 20) (rev ?s))))) None (Some 25)"
    using assms by (simp only: store_page)
  have r1: "?sel (1 * 20) (1 * 20 + 19) =
      Select_response (Some (map (joined_row users) (take 20 (drop (1 * 20) (rev ?s))))) None (Some 25)"
    using assms by (simp only: store_page)
  have p0: "map to_message (rev (map (joined_row users) (take 20 (drop (0 * 20) (rev ?s))))) = drop 5 ?asc"
    using len by (simp add: rev_map rev_take drop_map)
  have p1: "map to_message (rev (map (joined_row users) (take 20 (drop (1 * 20) (rev ?s))))) = take 5 ?asc"
    using len by (simp add: rev_map rev_drop take_map)
  note L0 = loadMessages_success [where select_range = "?sel" and n = 0, OF r0]
  note L1 = loadMessages_success [where select_range = "?sel" and n = 1, OF r1]
  have m0: "messages ?first = drop 5 ?asc"
    by (simp only: L0(1) p0)
  have h0: "hasMore ?first"
    using len by (simp add: L0(3))
  have l0: "loading ?first = False" by (simp add: L0(4))
  have g0: "page ?first = 0"
    by (simp add: L0(5) conversation_effect_def)
  have sc: "handleScroll 0 ?first = (?first\<lparr>loading := True, page := 1\<rparr>, Some 1)"
    using h0 l0 g0 by (simp add: handleScroll_def Let_def)
  have "messages ?second =
          map to_message (rev (map (joined_row users) (take 20 (drop (1 * 20) (rev ?s))))) @
          messages (fst (handleScroll 0 ?first))"
    by (rule L1(2))
  then have m1: "messages ?second = take 5 ?asc @ drop 5 ?asc"
    by (simp only: p1 messages_handleScroll m0)
  have "hasMore ?second = (1 * 20 + length (map (joined_row users) (take 20 (drop (1 * 20) (rev ?s)))) < 25)"
    by (rule L1(3))
  then have h1: "\<not> hasMore ?second"
    using len by simp
  have "length ?asc = 25" using len by simp
  with m0 h0 sc m1 h1 show ?thesis by (simp add: Let_def)
qed


lemma created_at_to_message: "created_at (to_message r) = created_at r"
  by (simp add: to_message_def)

lemma normalize_sender_cases:
  "normalize_sender f =
     (case f of
        Sender_null \<Rightarrow> None
      | Sender_object s \<Rightarrow> Some s
      | Sender_array xs \<Rightarrow> (case xs of [] \<Rightarrow> None | s # rest \<Rightarrow> Some s))"
  by (cases f rule: normalize_sender.cases) simp_all

lemma to_message_fields:
  "to_message msg =
     \<lparr> msg_id = msg_id msg, content = content msg, created_at = created_at msg,
       sender_id = sender_id msg, conversation_id = conversation_id msg,
       sender = normalize_sender (sender_raw msg), isEditing = None \<rparr>"
  by (simp add: to_message_def)

lemma truncate_loaded: "msg_core.truncate (to_message (joined_row users r)) = r"
  by (simp add: msg_core.truncate_def to_message_def joined_row_def)

lemma sender_loaded:
  "sender (to_message (joined_row users r)) =
     map_option (\<lambda>u. \<lparr> email = user_email u \<rparr>) (find (\<lambda>u. user_id u = sender_id r) users)"
  by (simp add: to_message_def joined_row_def join_sender_def split: option.splits)

lemma isEditing_loaded: "isEditing (to_message row) = None"
  by (simp add: to_message_def)

lemma loaded_columns:
  "map msg_core.truncate (map (to_message \<circ> joined_row users) rs) = rs"
  by (induction rs) (simp_all add: truncate_loaded)

lemma loaded_senders:
  "map sender (map (to_message \<circ> joined_row users) rs) =
     map (\<lambda>r. map_option (\<lambda>u. \<lparr> email = user_email u \<rparr>)
                 (find (\<lambda>u. user_id u = sender_id r) users)) rs"
  by (simp add: sender_loaded)

lemma loaded_created_at:
  "map created_at (map (to_message \<circ> joined_row users) rs) = map created_at rs"
  by (simp add: created_at_to_message joined_row_def)

lemma newest_after_oldest:
  assumes "sorted (map created_at s)"
  shows "\<forall>r \<in> set (take k s). \<forall>m \<in> set (drop k s). created_at r \<le> created_at m"
proof -
  have "sorted (map created_at (take k s) @ map created_at (drop k s))"
    using assms by (simp flip: map_append)
  then show ?thesis by (auto simp: sorted_append)
qed

lemma busy_rows:
  "conversation_rows ''c1'' busy_table =
     map (\<lambda>k. sample_core (replicate (Suc k) CHR ''m'') ''hi'' (100 + k) ''alice'') [0..<25]"
  by (simp add: conversation_rows_def busy_table_def sample_core_def)

lemma busy_sorted:
  "sort_key created_at (conversation_rows ''c1'' busy_table) =
     map (\<lambda>k. sample_core (replicate (Suc k) CHR ''m'') ''hi'' (100 + k) ''alice'') [0..<25]"
proof -
  have "sorted (map created_at (conversation_rows ''c1'' busy_table))"
    unfolding busy_rows by (simp add: sorted_iff_nth_mono sample_core_def del: upt_rec_numeral)
  then show ?thesis by (simp add: sort_key_id_if_sorted busy_rows del: upt_rec_numeral)
qed


lemma scenario_25_fields:
  assumes "length (conversation_rows c tbl) = 25"
  shows "(let select_range = store_select_messages None users tbl c;
              ascending = sort_key created_at (conversation_rows c tbl);
              senders = map (\<lambda>r. map_option (\<lambda>u. \<lparr> email = user_email u \<rparr>)
                                    (find (\<lambda>u. user_id u = sender_id r) users));
              first = loadMessages select_range 0 False (conversation_effect st);
              scrolled = handleScroll 0 first;
              second = loadMessages select_range 1 True (fst scrolled)
          in map msg_core.truncate (messages first) = drop 5 ascending \<and>
             map sender (messages first) = senders (drop 5 ascending) \<and>
             map isEditing (messages first) = replicate 20 None \<and>
             sorted (map created_at (messages first)) \<and>
             (\<forall>r \<in> set (take 5 ascending). \<forall>m \<in> set (messages first).
                created_at r \<le> created_at m) \<and>
             length (messages first) = 20 \<and> hasMore first \<and>
             snd scrolled = Some 1 \<and>
             map msg_core.truncate (messages second) = ascending \<and>
             map sender (messages second) = senders ascending \<and>
             map isEditing (messages second) = replicate 25 None \<and>
             drop 5 (messages second) = messages first \<and>
             sorted (map created_at (messages second)) \<and>
             length (messages second) = 25 \<and> \<not> hasMore second)"
proof -
  let ?sel = "store_select_messages None users tbl c"
  let ?s = "sort_key created_at (conversation_rows c tbl)"
  let ?A = "map (to_message \<circ> joined_row users) ?s"
  let ?first = "loadMessages ?sel 0 False (conversation_effect st)"
  let ?second = "loadMessages ?sel 1 True (fst (handleScroll 0 ?first))"
  have len: "length ?s = 25" using assms by simp
  have so: "sorted (map created_at ?s)" by simp
  note old = scenario_25 [OF assms, of users st, unfolded Let_def]
  from old have m0: "messages ?first = drop 5 ?A" and h0: "hasMore ?first"
    and sc: "snd (handleScroll 0 ?first) = Some 1"
    and m1: "messages ?second = ?A" and h1: "\<not> hasMore ?second" by blast+
  have c0: "map msg_core.truncate (messages ?first) = drop 5 ?s"
    unfolding m0 by (simp only: drop_map [symmetric] loaded_columns)
  have s0: "map sender (messages ?first) =
      map (\<lambda>r. map_option (\<lambda>u. \<lparr> email = user_email u \<rparr>)
                 (find (\<lambda>u. user_id u = sender_id r) users)) (drop 5 ?s)"
    unfolding m0 by (simp only: drop_map [symmetric] loaded_senders)
  have e0: "map isEditing (messages ?first) = replicate 20 None"
    unfolding m0 using len by (simp add: drop_map comp_def isEditing_loaded map_replicate_const)
  have t0: "map created_at (messages ?first) = drop 5 (map created_at ?s)"
    unfolding m0 by (simp only: drop_map [symmetric] loaded_created_at)
  have o0: "sorted (map created_at (messages ?first))"
    unfolding t0 using so by (rule sorted_wrt_drop)
  have n0: "\<forall>r \<in> set (take 5 ?s). \<forall>m \<in> set (messages ?first). created_at r \<le> created_at m"
  proof (intro ballI)
    fix r m assume r: "r \<in> set (take 5 ?s)" and m: "m \<in> set (messages ?first)"
    from m have "created_at m \<in> set (map created_at (messages ?first))" by simp
    then have "created_at m \<in> set (map created_at (drop 5 ?s))" by (simp only: t0 drop_map)
    then obtain x where "x \<in> set (drop 5 ?s)" and "created_at m = created_at x" by auto
    with r newest_after_oldest [OF so, of 5] show "created_at r \<le> created_at m" by simp
  qed
  have l0: "length (messages ?first) = 20" unfolding m0 using len by simp
  have c1: "map msg_core.truncate (messages ?second) = ?s"
    unfolding m1 by (rule loaded_columns)
  have s1: "map sender (messages ?second) =
      map (\<lambda>r. map_option (\<lambda>u. \<lparr> email = user_email u \<rparr>)
                 (find (\<lambda>u. user_id u = sender_id r) users)) ?s"
    unfolding m1 by (rule loaded_senders)
  have e1: "map isEditing (messages ?second) = replicate 25 None"
    unfolding m1 using len by (simp add: comp_def isEditing_loaded map_replicate_const)
  have d1: "drop 5 (messages ?second) = messages ?first" by (simp only: m0 m1)
  have o1: "sorted (map created_at (messages ?second))"
    unfolding m1 using so by (simp only: loaded_created_at)
  have l1: "length (messages ?second) = 25" unfolding m1 using len by simp
  from c0 s0 e0 o0 n0 l0 h0 sc c1 s1 e1 d1 o1 l1 h1 show ?thesis
    unfolding Let_def by blast
qed

lemma loadMessages_success_fields:
  assumes "select_range (n * 20) (n * 20 + 19) = Select_response (Some rows) None (Some totalCount)"
  shows "(let shown = map (\<lambda>msg. \<lparr> msg_id = msg_id msg, content = content msg,
                                   created_at = created_at msg, sender_id = sender_id msg,
                                   conversation_id = conversation_id msg,
                                   sender = (case sender_raw msg of
                                               Sender_null \<Rightarrow> None
                                             | Sender_object s \<Rightarrow> Some s
                                             | Sender_array xs \<Rightarrow>
                                                 (case xs of [] \<Rightarrow> None | s # rest \<Rightarrow> Some s)),
                                   isEditing = None \<rparr>) (rev rows)
          in messages (loadMessages select_range n False st) = shown \<and>
             messages (loadMessages select_range n True st) = shown @ messages st \<and>
             hasMore (loadMessages select_range n a st) = (n * 20 + length rows < totalCount))"
  using loadMessages_success(1,2) [where select_range = select_range and n = n and st = st, OF assms]
    loadMessages_success(3) [where select_range = select_range and n = n and st = st and a = a, OF assms]
  by (simp add: Let_def to_message_fields [abs_def] normalize_sender_cases)

text \<open>
  C5. \<open>loadMessages\<close> asks the store for the window from \<open>pageNumber * 20\<close> to
  \<open>pageNumber * 20 + 19\<close> and for nothing else. On a successful response it
  reverses the rows, turns each row into a message with the row's own columns, the
  normalized sender and no editing flag, replaces the list with them or prepends them
  to it, and sets \<open>hasMore\<close> to whether \<open>pageNumber * 20\<close> plus the number of
  rows returned is below the total count (to false when the count is null). The
  store's window is the corresponding slice of the conversation's messages newest
  first, so the rows come descending by creation timestamp. For a conversation of
  exactly 25 messages, the load of page 0 yields the 20 most recent rows of the
  conversation ascending, each with its sender's email, with \<open>hasMore\<close> true; the
  scroll to the top starts page 1, and its load prepends the other 5, giving all 25
  rows ascending with \<open>hasMore\<close> false.
\<close>

theorem loadMessages_pagination:
  "loadMessages select_range pageNumber append_page st =
     loadMessages (\<lambda>from to. select_range (pageNumber * 20) (pageNumber * 20 + 19))
       pageNumber append_page st \<and>
   (select_range (pageNumber * 20) (pageNumber * 20 + 19) =
      Select_response (Some rows) None (Some totalCount) \<longrightarrow>
      (let shown = map (\<lambda>msg. \<lparr> msg_id = msg_id msg, content = content msg,
                                   created_at = created_at msg, sender_id = sender_id msg,
                                   conversation_id = conversation_id msg,
                                   sender = (case sender_raw msg of
                                               Sender_null \<Rightarrow> None
                                             | Sender_object s \<Rightarrow> Some s
                                             | Sender_array xs \<Rightarrow>
                                                 (case xs of [] \<Rightarrow> None | s # rest \<Rightarrow> Some s)),
                                   isEditing = None \<rparr>) (rev rows)
       in messages (loadMessages select_range pageNumber False st) = shown \<and>
          messages (loadMessages select_range pageNumber True st) = shown @ messages st \<and>
          hasMore (loadMessages select_range pageNumber append_page st) =
            (pageNumber * 20 + length rows < totalCount))) \<and>
   (select_range (pageNumber * 20) (pageNumber * 20 + 19) = Select_response d None None \<longrightarrow>
      \<not> hasMore (loadMessages select_range pageNumber append_page st)) \<and>
   store_select_messages None users tbl c (pageNumber * 20) (pageNumber * 20 + 19) =
     Select_response
       (Some (map (joined_row users)
                (take 20 (drop (pageNumber * 20)
                   (rev (sort_key created_at (conversation_rows c tbl)))))))
       None (Some (length (conversation_rows c tbl))) \<and>
   (resp_data (store_select_messages fault users tbl c lo hi) = Some rows' \<longrightarrow>
      sorted (rev (map created_at rows'))) \<and>
   (length (conversation_rows c tbl) = 25 \<longrightarrow>
      (let select_range = store_select_messages None users tbl c;
           ascending = sort_key created_at (conversation_rows c tbl);
           senders = map (\<lambda>r. map_option (\<lambda>u. \<lparr> email = user_email u \<rparr>)
                                 (find (\<lambda>u. user_id u = sender_id r) users));
           first = loadMessages select_range 0 False (conversation_effect st);
           scrolled = handleScroll 0 first;
           second = loadMessages select_range 1 True (fst scrolled)
       in map msg_core.truncate (messages first) = drop 5 ascending \<and>
          map sender (messages first) = senders (drop 5 ascending) \<and>
          map isEditing (messages first) = replicate 20 None \<and>
          sorted (map created_at (messages first)) \<and>
          (\<forall>r \<in> set (take 5 ascending). \<forall>m \<in> set (messages first).
             created_at r \<le> created_at m) \<and>
          length (messages first) = 20 \<and> hasMore first \<and>
          snd scrolled = Some 1 \<and>
          map msg_core.truncate (messages second) = ascending \<and>
          map sender (messages second) = senders ascending \<and>
          map isEditing (messages second) = replicate 25 None \<and>
          drop 5 (messages second) = messages first \<and>
          sorted (map created_at (messages second)) \<and>
          length (messages second) = 25 \<and> \<not> hasMore second))"
proof -
  have null_count: "\<not> hasMore (loadMessages select_range pageNumber append_page st)"
    if "select_range (pageNumber * 20) (pageNumber * 20 + 19) = Select_response d None None"
  proof -
    have "loadMessages select_range pageNumber append_page st =
            loadMessages (\<lambda>from to. Select_response d None None) pageNumber append_page st"
      by (subst loadMessages_window) (simp only: that)
    then show ?thesis by (simp add: loadMessages_def Let_def)
  qed
  show ?thesis
    using loadMessages_window [of select_range pageNumber append_page st]
      loadMessages_success_fields [of select_range pageNumber rows totalCount st append_page]
      null_count store_page [of users tbl c pageNumber]
      store_page_descending [of fault users tbl c lo hi rows']
      scenario_25_fields [of c tbl users st]
    by (intro conjI impI) blast+
qed

theorem loadMessages_pagination_witness:
  "map msg_core.truncate
     (messages (loadMessages (store_select_messages None sample_users busy_table ''c1'') 0 False
                  (conversation_effect initial_window))) =
     map (\<lambda>k. sample_core (replicate (Suc k) CHR ''m'') ''hi'' (100 + k) ''alice'') [5..<25] \<and>
   map sender
     (messages (loadMessages (store_select_messages None sample_users busy_table ''c1'') 0 False
                  (conversation_effect initial_window))) =
     replicate 20 (Some \<lparr> email = ''alice@example.org'' \<rparr>) \<and>
   hasMore (loadMessages (store_select_messages None sample_users busy_table ''c1'') 0 False
             (conversation_effect initial_window)) \<and>
   map msg_core.truncate
     (messages (loadMessages (store_select_messages None sample_users busy_table ''c1'') 1 True
        (fst (handleScroll 0
           (loadMessages (store_select_messages None sample_users busy_table ''c1'') 0 False
              (conversation_effect initial_window)))))) =
     map (\<lambda>k. sample_core (replicate (Suc k) CHR ''m'') ''hi'' (100 + k) ''alice'') [0..<25] \<and>
   map sender
     (messages (loadMessages (store_select_messages None sample_users busy_table ''c1'') 1 True
        (fst (handleScroll 0
           (loadMessages (store_select_messages None sample_users busy_table ''c1'') 0 False
              (conversation_effect initial_window)))))) =
     replicate 25 (Some \<lparr> email = ''alice@example.org'' \<rparr>) \<and>
   \<not> hasMore (loadMessages (store_select_messages None sample_users busy_table ''c1'') 1 True
        (fst (handleScroll 0
           (loadMessages (store_select_messages None sample_users busy_table ''c1'') 0 False
              (conversation_effect initial_window)))))"
proof -
  let ?row = "\<lambda>k. sample_core (replicate (Suc k) CHR ''m'') ''hi'' (100 + k) ''alice''"
  have h: "length (conversation_rows ''c1'' busy_table) = 25"
    by (simp add: busy_rows)
  have alice: "map_option (\<lambda>u. \<lparr> email = user_email u \<rparr>)
                 (find (\<lambda>u. user_id u = sender_id (sample_core i b t ''alice'')) sample_users) =
               Some \<lparr> email = ''alice@example.org'' \<rparr>" for i b t
    by (simp add: sample_core_def sample_users_def)
  have late: "drop 5 (map ?row [0..<25]) = map ?row [5..<25]"
    by (simp only: drop_map drop_upt) simp
  note scenario = loadMessages_pagination [where users = sample_users and tbl = busy_table
      and c = "''c1''" and st = initial_window, THEN conjunct2, THEN conjunct2,
      THEN conjunct2, THEN conjunct2, THEN conjunct2, THEN mp, OF h,
      unfolded Let_def busy_sorted late]
  have s20: "map (\<lambda>r. map_option (\<lambda>u. \<lparr> email = user_email u \<rparr>)
                 (find (\<lambda>u. user_id u = sender_id r) sample_users)) (map ?row [5..<25]) =
             replicate 20 (Some \<lparr> email = ''alice@example.org'' \<rparr>)"
    by (simp add: comp_def alice map_replicate_const del: upt_rec_numeral)
  have s25: "map (\<lambda>r. map_option (\<lambda>u. \<lparr> email = user_email u \<rparr>)
                 (find (\<lambda>u. user_id u = sender_id r) sample_users)) (map ?row [0..<25]) =
             replicate 25 (Some \<lparr> email = ''alice@example.org'' \<rparr>)"
    by (simp add: comp_def alice map_replicate_const del: upt_rec_numeral)
  from scenario show ?thesis unfolding s20 s25 by blast
qed


section \<open>Order by creation time\<close>

lemma store_page_ascending:
  "sorted (map created_at (incoming (Loaded n a (store_select_messages fault users tbl c lo hi))))"
proof (cases fault)
  case (Some e)
  then show ?thesis by (simp add: store_select_messages_def)
next
  case None
  then obtain rows where rows: "resp_data (store_select_messages fault users tbl c lo hi) = Some rows"
    and ok: "resp_error (store_select_messages fault users tbl c lo hi) = None"
    by (simp add: store_select_messages_def Let_def)
  have "map created_at (page_messages (Some rows)) = rev (map created_at rows)"
    by (simp add: page_messages_def rev_map created_at_to_message)
  with store_page_descending [OF rows] show ?thesis by (simp add: rows ok)
qed

text \<open>
  C2. The list stays sorted ascending by creation timestamp after every event (page
  loads that replace or prepend, live insert, update and delete, and every other
  callback), provided each page comes newest first as the ordered read returns it, a
  prepended page holds nothing newer than a message of the list, and a live insert is
  not older than a message of the list. The pages of the store's ordered read meet the
  first of these conditions.
\<close>

theorem list_stays_sorted:
  "(sorted (map created_at (messages st)) \<and>
    along in_time_order conversationId userId evs st \<longrightarrow>
      sorted (map created_at (messages (run conversationId userId evs st)))) \<and>
   sorted (map created_at
     (incoming (Loaded pageNumber append_page (store_select_messages fault users tbl c lo hi))))"
  using sorted_run [of st conversationId userId evs]
    store_page_ascending [of pageNumber append_page fault users tbl c lo hi]
  by blast

theorem list_stays_sorted_witness:
  "map created_at (messages (run ''c1'' ''alice''
        [Loaded 0 False sample_page, Inserted (sample_core ''m3'' ''again'' 30 ''bob'') (Some bob),
         Updated (sample_core ''m1'' ''edited'' 10 ''alice''), Loaded 1 True older_page,
         Deleted (sample_core ''m2'' ''world'' 20 ''bob'')]
        initial_window)) = [5, 10, 30] \<and>
   sorted (map created_at (messages (run ''c1'' ''alice''
        [Loaded 0 False sample_page, Inserted (sample_core ''m3'' ''again'' 30 ''bob'') (Some bob),
         Updated (sample_core ''m1'' ''edited'' 10 ''alice''), Loaded 1 True older_page,
         Deleted (sample_core ''m2'' ''world'' 20 ''bob'')]
        initial_window)))"
proof -
  let ?evs = "[Loaded 0 False sample_page,
               Inserted (sample_core ''m3'' ''again'' 30 ''bob'') (Some bob),
               Updated (sample_core ''m1'' ''edited'' 10 ''alice''), Loaded 1 True older_page,
               Deleted (sample_core ''m2'' ''world'' 20 ''bob'')]"
  note defs = sample_page_def older_page_def sample_raw_def sample_core_def bob_def
    initial_window_def loadMessages_def insert_handler_def update_handler_def
    delete_handler_def page_messages_def to_message_def MESSAGES_PER_PAGE_def
  have d: "sorted (map created_at (messages initial_window))"
    by (simp add: initial_window_def)
  have a: "along in_time_order ''c1'' ''alice'' ?evs initial_window"
    by (simp add: defs)
  have v: "map created_at (messages (run ''c1'' ''alice'' ?evs initial_window)) = [5, 10, 30]"
    by (simp add: defs)
  from d a list_stays_sorted [of initial_window "''c1''" "''alice''" ?evs]
  have "sorted (map created_at (messages (run ''c1'' ''alice'' ?evs initial_window)))"
    by blast
  with v show ?thesis by simp
qed

section \<open>Edits and deletes by another user\<close>

lemma only_row_with_id:
  assumes "distinct (map msg_id tbl)" and "m \<in> set tbl" and "msg_id m = messageId"
    and "sender_id m \<noteq> userId"
  shows "\<forall>r \<in> set tbl. \<not> (msg_id r = messageId \<and> sender_id r = userId)"
proof (intro ballI notI)
  fix r assume r: "r \<in> set tbl" and "msg_id r = messageId \<and> sender_id r = userId"
  with assms(3) have same: "msg_id r = msg_id m" and s: "sender_id r = userId" by simp_all
  from assms(1) have "inj_on msg_id (set tbl)" by (simp add: distinct_map)
  with r assms(2) same have "r = m" by (auto dest: inj_onD)
  with s assms(4) show False by simp
qed

lemma untouched_update:
  assumes "\<forall>r \<in> set tbl. \<not> (msg_id r = messageId \<and> sender_id r = userId)"
  shows "store_update_message fault messageId userId newContent tbl = (fault, tbl)"
proof -
  have "map (\<lambda>r. if msg_id r = messageId \<and> sender_id r = userId
                  then r\<lparr>content := newContent\<rparr> else r) tbl = tbl"
    using assms by (intro map_idI) auto
  then show ?thesis by (simp add: store_update_message_def split: option.splits)
qed

lemma untouched_delete:
  assumes "\<forall>r \<in> set tbl. \<not> (msg_id r = messageId \<and> sender_id r = userId)"
  shows "store_delete_message fault messageId userId tbl = (fault, tbl)"
proof -
  have "filter (\<lambda>r. \<not> (msg_id r = messageId \<and> sender_id r = userId)) tbl = tbl"
    using assms by (simp only: filter_id_conv)
  then show ?thesis by (simp add: store_delete_message_def split: option.splits)
qed

lemma untouched_affected:
  assumes "\<forall>r \<in> set tbl. \<not> (msg_id r = messageId \<and> sender_id r = userId)"
  shows "affected_rows messageId userId tbl = []"
  using assms unfolding affected_rows_def by (simp only: filter_empty_conv)

lemma effects_saveEditMessage:
  "effects (saveEditMessage reply userId messageId st) =
     effects st @
     (if trim (editMessage st) = [] then []
      else Store_request (Update_message messageId userId (editMessage st)) #
           (case reply of
              None \<Rightarrow> []
            | Some e \<Rightarrow> [Toast_error (error_text e ''Failed to edit message'')]))"
  by (simp add: saveEditMessage_def Let_def split: option.splits)

lemma effects_deleteMessage:
  "effects (deleteMessage reply userId messageId st) =
     effects st @
     [Store_request (Delete_message messageId userId),
      case reply of
        None \<Rightarrow> Toast_success ''Message deleted''
      | Some e \<Rightarrow> Toast_error (error_text e ''Failed to delete message'')]"
  by (simp add: deleteMessage_def Let_def split: option.splits)

text \<open>
  C4, as stated, fails in its last part: bob deletes a message of alice's; the
  conditional delete matches no row and returns no error, and \<open>deleteMessage\<close>
  then shows the success notification.
\<close>

theorem non_author_delete_counterexample:
  "store_delete_message None ''m1'' ''bob'' [sample_core ''m1'' ''hello'' 10 ''alice''] =
     (None, [sample_core ''m1'' ''hello'' 10 ''alice'']) \<and>
   effects (deleteMessage
              (fst (store_delete_message None ''m1'' ''bob''
                      [sample_core ''m1'' ''hello'' 10 ''alice'']))
              ''bob'' ''m1'' sample_window) =
     [Store_request (Delete_message ''m1'' ''bob''), Toast_success ''Message deleted'']"
  by (simp add: store_delete_message_def deleteMessage_def sample_core_def sample_window_def
        initial_window_def)

text \<open>
  C4, amended. When the acting user is not the sender of the message with the given
  id, the conditional update and the conditional delete touch no row and leave the
  table as it was, and neither gateway call changes the list. \<open>saveEditMessage\<close>
  adds no success notification, only the request and, on a store error, a failure
  notification. \<open>deleteMessage\<close> reports a failure exactly when the store call
  returns an error and a success otherwise, also when no row was touched. The window
  does not render Edit and Delete on a message of another sender.
\<close>

theorem non_author_write_touches_nothing:
  assumes "distinct (map msg_id tbl)" and "m \<in> set tbl" and "msg_id m = messageId"
    and "sender_id m \<noteq> userId"
  shows "affected_rows messageId userId tbl = [] \<and>
         store_update_message fault messageId userId newContent tbl = (fault, tbl) \<and>
         store_delete_message fault messageId userId tbl = (fault, tbl) \<and>
         messages (saveEditMessage reply userId messageId st) = messages st \<and>
         messages (deleteMessage reply userId messageId st) = messages st \<and>
         effects (saveEditMessage reply userId messageId st) =
           effects st @
           (if trim (editMessage st) = [] then []
            else Store_request (Update_message messageId userId (editMessage st)) #
                 (case reply of
                    None \<Rightarrow> []
                  | Some e \<Rightarrow> [Toast_error (error_text e ''Failed to edit message'')])) \<and>
         effects (deleteMessage (fst (store_delete_message fault messageId userId tbl))
                    userId messageId st) =
           effects st @
           [Store_request (Delete_message messageId userId),
            case fault of
              None \<Rightarrow> Toast_success ''Message deleted''
            | Some e \<Rightarrow> Toast_error (error_text e ''Failed to delete message'')] \<and>
         (\<forall>x \<in> set (messages st). sender_id x \<noteq> userId \<longrightarrow> \<not> shows_edit_delete userId x)"
  using only_row_with_id [OF assms]
  by (simp add: untouched_affected untouched_update untouched_delete
        effects_saveEditMessage effects_deleteMessage shows_edit_delete_def)

theorem non_author_write_touches_nothing_witness:
  "affected_rows ''m1'' ''bob'' [sample_core ''m1'' ''hello'' 10 ''alice''] = [] \<and>
   store_update_message None ''m1'' ''bob'' (utf16 ''changed'') [sample_core ''m1'' ''hello'' 10 ''alice''] =
     (None, [sample_core ''m1'' ''hello'' 10 ''alice'']) \<and>
   messages (deleteMessage None ''bob'' ''m1'' sample_window) = messages sample_window"
proof -
  let ?m = "sample_core ''m1'' ''hello'' 10 ''alice''"
  have d: "distinct (map msg_id [?m])" by simp
  have i: "?m \<in> set [?m]" by simp
  have k: "msg_id ?m = ''m1''" by (simp add: sample_core_def)
  have n: "sender_id ?m \<noteq> ''bob''" by (simp add: sample_core_def)
  from non_author_write_touches_nothing [OF d i k n, of None "utf16 ''changed''" None sample_window]
  show ?thesis by blast
qed

section \<open>Accepting a friend request\<close>

lemma accept_update_fails:
  "handleAcceptRequest (Some e) cf pf assigned requestId db =
     (db, [Toast_error (error_text e ''Failed to accept request'')])"
  by (simp add: handleAcceptRequest_def store_update_request_status_def)

lemma accept_not_one_row:
  assumes "length (filter (\<lambda>r. request_id r = requestId) (friend_requests db)) \<noteq> 1"
  shows "handleAcceptRequest None cf pf assigned requestId db =
     (db, [Toast_error (error_text single_error ''Failed to accept request'')])"
proof -
  from assms have "store_update_request_status None requestId ''accepted'' db =
      (None, Some single_error, db)"
    by (cases "filter (\<lambda>r. request_id r = requestId) (friend_requests db)" rule: list.exhaust)
       (auto simp: store_update_request_status_def split: list.splits)
  then show ?thesis by (simp add: handleAcceptRequest_def)
qed

lemma accept_update_ok:
  assumes "filter (\<lambda>r. request_id r = requestId) (friend_requests db) = [r]"
  shows "store_update_request_status None requestId ''accepted'' db =
     (Some (request_sender_id r, request_receiver_id r), None,
      db\<lparr>friend_requests :=
           map (\<lambda>r. if request_id r = requestId then r\<lparr>status := ''accepted''\<rparr> else r)
               (friend_requests db)\<rparr>)"
  using assms by (simp add: store_update_request_status_def)

lemma accept_conversation_fails:
  assumes "filter (\<lambda>r. request_id r = requestId) (friend_requests db) = [r]"
  shows "handleAcceptRequest None (Some e) pf assigned requestId db =
     (db\<lparr>friend_requests :=
           map (\<lambda>r. if request_id r = requestId then r\<lparr>status := ''accepted''\<rparr> else r)
               (friend_requests db)\<rparr>,
      [Toast_error (error_text e ''Failed to accept request'')])"
  by (simp add: handleAcceptRequest_def accept_update_ok [OF assms] store_insert_conversation_def)

lemma accept_participants_fail:
  assumes "filter (\<lambda>r. request_id r = requestId) (friend_requests db) = [r]"
  shows "handleAcceptRequest None None (Some e) assigned requestId db =
     (db\<lparr>friend_requests :=
           map (\<lambda>r. if request_id r = requestId then r\<lparr>status := ''accepted''\<rparr> else r)
               (friend_requests db),
         conversations := conversations db @ [assigned]\<rparr>,
      [Toast_error (error_text e ''Failed to accept request'')])"
  by (simp add: handleAcceptRequest_def accept_update_ok [OF assms] store_insert_conversation_def
        store_insert_participants_def)

lemma accept_all_succeed:
  assumes "filter (\<lambda>r. request_id r = requestId) (friend_requests db) = [r]"
  shows "handleAcceptRequest None None None assigned requestId db =
     (db\<lparr>friend_requests :=
           map (\<lambda>r. if request_id r = requestId then r\<lparr>status := ''accepted''\<rparr> else r)
               (friend_requests db),
         conversations := conversations db @ [assigned],
         participants := participants db @
           [\<lparr> participant_conversation_id = conversation_row_id assigned,
              participant_user_id = request_sender_id r \<rparr>,
            \<lparr> participant_conversation_id = conversation_row_id assigned,
              participant_user_id = request_receiver_id r \<rparr>]\<rparr>,
      [Toast_success ''Friend request accepted'',
       Select_conversation (conversation_row_id assigned)])"
  by (simp add: handleAcceptRequest_def accept_update_ok [OF assms] store_insert_conversation_def
        store_insert_participants_def)

lemma one_row_cases:
  "(\<exists>r. filter P xs = [r]) \<or> length (filter P xs) \<noteq> 1"
  by (cases "filter P xs" rule: list.exhaust) (auto simp: length_Suc_conv)

lemma accept_success_only_if:
  assumes "Toast_success t \<in> set (snd (handleAcceptRequest uf cf pf assigned requestId db))"
  shows "uf = None \<and> cf = None \<and> pf = None \<and>
         (\<exists>r. filter (\<lambda>r. request_id r = requestId) (friend_requests db) = [r])"
proof -
  have uf: "uf = None"
  proof (cases uf)
    case (Some e)
    with assms show ?thesis by (simp add: accept_update_fails)
  qed simp
  have one: "\<exists>r. filter (\<lambda>r. request_id r = requestId) (friend_requests db) = [r]"
  proof (rule ccontr)
    assume "\<not> ?thesis"
    with one_row_cases [of "\<lambda>r. request_id r = requestId" "friend_requests db"]
    have "length (filter (\<lambda>r. request_id r = requestId) (friend_requests db)) \<noteq> 1" by blast
    from accept_not_one_row [OF this] assms uf show False by simp
  qed
  then obtain r where r: "filter (\<lambda>r. request_id r = requestId) (friend_requests db) = [r]" ..
  have cf: "cf = None"
  proof (cases cf)
    case (Some e)
    with assms uf accept_conversation_fails [OF r] show ?thesis by simp
  qed simp
  have pf: "pf = None"
  proof (cases pf)
    case (Some e)
    with assms uf cf accept_participants_fail [OF r] show ?thesis by simp
  qed simp
  from uf cf pf one show ?thesis by blast
qed

text \<open>
  C3, as stated, fails: with the request \<open>r1\<close> pending and the insert into
  \<open>conversations\<close> failing, the handler reports the failure, but the request stays
  accepted and has no conversation.
\<close>

theorem accept_not_atomic_counterexample:
  "handleAcceptRequest None (Some (Store_error ''unreachable'')) None new_conversation ''r1''
     sample_tables =
     (\<lparr> friend_requests =
          [\<lparr> request_id = ''r1'', request_sender_id = ''alice'', request_receiver_id = ''bob'',
             status = ''accepted'' \<rparr>],
        conversations = [], participants = [] \<rparr>,
      [Toast_error ''unreachable''])"
  by (simp add: handleAcceptRequest_def store_update_request_status_def
        store_insert_conversation_def sample_tables_def error_text_def)

text \<open>
  C3, amended. The handler runs the status update, the insert of the conversation and
  the insert of the two participants in this order and stops at the first call that
  fails. A failing status update (a fault, or no single request with that id) leaves
  the tables as they were. Success is reported only when all three calls succeeded,
  and then the request is accepted, exactly one conversation is added and its two
  participants are the sender and the receiver of the request. A failure of a later
  call is reported as a failure and the writes before it are kept: the request stays
  accepted, and the conversation stays when only the participants failed.
\<close>

theorem accept_request_in_sequence:
  "handleAcceptRequest (Some e) conversationFault participantsFault assigned requestId db =
     (db, [Toast_error (error_text e ''Failed to accept request'')]) \<and>
   (length (filter (\<lambda>r. request_id r = requestId) (friend_requests db)) \<noteq> 1 \<longrightarrow>
      handleAcceptRequest None conversationFault participantsFault assigned requestId db =
        (db, [Toast_error (error_text single_error ''Failed to accept request'')])) \<and>
   (Toast_success t \<in> set (snd (handleAcceptRequest updateFault conversationFault
                                  participantsFault assigned requestId db)) \<longrightarrow>
      updateFault = None \<and> conversationFault = None \<and> participantsFault = None) \<and>
   (filter (\<lambda>r. request_id r = requestId) (friend_requests db) = [r] \<longrightarrow>
      handleAcceptRequest None None None assigned requestId db =
        (db\<lparr>friend_requests :=
              map (\<lambda>r. if request_id r = requestId then r\<lparr>status := ''accepted''\<rparr> else r)
                  (friend_requests db),
            conversations := conversations db @ [assigned],
            participants := participants db @
              [\<lparr> participant_conversation_id = conversation_row_id assigned,
                 participant_user_id = request_sender_id r \<rparr>,
               \<lparr> participant_conversation_id = conversation_row_id assigned,
                 participant_user_id = request_receiver_id r \<rparr>]\<rparr>,
         [Toast_success ''Friend request accepted'',
          Select_conversation (conversation_row_id assigned)]) \<and>
      handleAcceptRequest None (Some e) participantsFault assigned requestId db =
        (db\<lparr>friend_requests :=
              map (\<lambda>r. if request_id r = requestId then r\<lparr>status := ''accepted''\<rparr> else r)
                  (friend_requests db)\<rparr>,
         [Toast_error (error_text e ''Failed to accept request'')]) \<and>
      handleAcceptRequest None None (Some e) assigned requestId db =
        (db\<lparr>friend_requests :=
              map (\<lambda>r. if request_id r = requestId then r\<lparr>status := ''accepted''\<rparr> else r)
                  (friend_requests db),
            conversations := conversations db @ [assigned]\<rparr>,
         [Toast_error (error_text e ''Failed to accept request'')]))"
  using accept_update_fails [of e conversationFault participantsFault assigned requestId db]
    accept_not_one_row [of requestId db conversationFault participantsFault assigned]
    accept_success_only_if [of t updateFault conversationFault participantsFault assigned
      requestId db]
    accept_all_succeed [of requestId db r assigned]
    accept_conversation_fails [of requestId db r e participantsFault assigned]
    accept_participants_fail [of requestId db r e assigned]
  by (intro conjI impI) blast+

theorem accept_request_in_sequence_witness:
  "handleAcceptRequest None None None new_conversation ''r1'' sample_tables =
     (\<lparr> friend_requests =
          [\<lparr> request_id = ''r1'', request_sender_id = ''alice'', request_receiver_id = ''bob'',
             status = ''accepted'' \<rparr>],
        conversations = [new_conversation],
        participants =
          [\<lparr> participant_conversation_id = ''c9'', participant_user_id = ''alice'' \<rparr>,
           \<lparr> participant_conversation_id = ''c9'', participant_user_id = ''bob'' \<rparr>] \<rparr>,
      [Toast_success ''Friend request accepted'', Select_conversation ''c9''])"
proof -
  let ?r = "\<lparr> request_id = ''r1'', request_sender_id = ''alice'', request_receiver_id = ''bob'',
             status = ''pending'' \<rparr>"
  have h: "filter (\<lambda>r. request_id r = ''r1'') (friend_requests sample_tables) = [?r]"
    by (simp add: sample_tables_def)
  note all = accept_request_in_sequence [of _ _ _ new_conversation "''r1''" sample_tables _ _ ?r,
      THEN conjunct2, THEN conjunct2, THEN conjunct2, THEN mp, OF h, THEN conjunct1]
  then show ?thesis by (simp add: sample_tables_def new_conversation_def)
qed

end
